theory Spec2Isabelle
  imports Complex_Main "HOL-Library.Word" "HOL-Library.Multiset"
begin

unbundle bit_operations_syntax

section \<open>Shared helpers: Go library functions used by the modelled code\<close>

text \<open>
  Numbers. Go's \<open>int\<close> and \<open>uint\<close> are modelled as \<open>int\<close> and \<open>nat\<close>: the modelled code
  only compares them, counts with them and prints them; the one increment (\<open>task.Retry++\<close>)
  is guarded by \<open>Retry < MaxRetry\<close> and so cannot wrap. The one narrowing conversion,
  \<open>uint8(task.Priority)\<close>, is modelled on \<open>8 word\<close>. Go's \<open>float64\<close> is modelled as
  \<open>real\<close>: the finite values with exact arithmetic; NaN, the infinities and rounding are
  outside the model.
\<close>

definition digit_char :: "nat \<Rightarrow> char" where
  "digit_char d = ''0123456789'' ! d"

fun utoa :: "nat \<Rightarrow> string" where
  "utoa n = (if n < 10 then [digit_char n] else utoa (n div 10) @ [digit_char (n mod 10)])"

declare utoa.simps [simp del]

text \<open>\<open>strconv.Itoa\<close> and the verb \<open>%d\<close> of \<open>fmt.Sprintf\<close>.\<close>

definition Itoa :: "int \<Rightarrow> string" where
  "Itoa i = (if i < 0 then CHR ''-'' # utoa (nat (- i)) else utoa (nat i))"


section \<open>Job queue (package queue)\<close>

text \<open>
  \<open>Task\<close> as declared in the source. \<open>Payload\<close> is an opaque value of type \<open>'p\<close>,
  \<open>CreatedAt\<close> a timestamp in nanoseconds.
\<close>

record 'p Task =
  ID :: string
  Type :: string
  Payload :: 'p
  Priority :: int
  Retry :: int
  MaxRetry :: int
  CreatedAt :: int

text \<open>
  A message body is the JSON encoding of a task, or bytes that \<open>json.Unmarshal\<close> rejects.
  The fields of \<open>amqp.Publishing\<close> that \<open>PublishTask\<close> sets are kept.
\<close>

datatype 'p body = Malformed | Json "'p Task"

record 'p Publishing =
  ContentType :: string
  Body :: "'p body"
  PubPriority :: "8 word"
  Timestamp :: int
  Persistent :: bool

text \<open>
  The broker as the code sees it: the messages waiting in the work queues (with the name of
  their queue), the messages acknowledged, and the messages rejected without requeue, which
  the queue's \<open>x-dead-letter-exchange\<close> argument routes to the exchange \<open>dlx\<close>.
\<close>

record 'p broker =
  ready :: "(string \<times> 'p Publishing) list"
  acked :: "(string \<times> 'p Publishing) list"
  dead :: "(string \<times> 'p Publishing) list"

text \<open>What the environment does with one call of \<open>PublishTask\<close>.\<close>

datatype outcome = MarshalError | PublishError | Published

definition generateTaskID :: "int \<Rightarrow> string" where
  "generateTaskID now = ''task_'' @ Itoa now"

definition CreateTask :: "int \<Rightarrow> string \<Rightarrow> 'p \<Rightarrow> int \<Rightarrow> 'p Task" where
  "CreateTask now taskType payload priority =
     \<lparr>ID = generateTaskID now, Type = taskType, Payload = payload, Priority = priority,
      Retry = 0, MaxRetry = 3, CreatedAt = now\<rparr>"

text \<open>
  \<open>PublishTask\<close>: marshal, convert the priority to \<open>uint8\<close>, clamp it at 10, publish on the
  default exchange with the queue name as routing key. The result is the error (if any)
  and the broker afterwards.
\<close>

definition PublishTask ::
  "outcome \<Rightarrow> int \<Rightarrow> string \<Rightarrow> 'p Task \<Rightarrow> 'p broker \<Rightarrow> string option \<times> 'p broker" where
  "PublishTask env now queueName task s =
     (if env = MarshalError then (Some ''failed to marshal task'', s)
      else
        let priority0 = (word_of_int (Priority task) :: 8 word);
            priority = (if priority0 > 10 then 10 else priority0)
        in if env = PublishError
           then (Some (''failed to publish task to queue '' @ queueName), s)
           else (None,
                 s\<lparr>ready := ready s @
                    [(queueName,
                      \<lparr>ContentType = ''application/json'', Body = Json task,
                       PubPriority = priority, Timestamp = now, Persistent = True\<rparr>)]\<rparr>))"







section \<open>Go library functions on strings\<close>

definition Join :: "string list \<Rightarrow> string \<Rightarrow> string" where
  "Join elems sep = (case elems of [] \<Rightarrow> [] | e # es \<Rightarrow> e @ concat (map (\<lambda>x. sep @ x) es))"










section \<open>Go library functions that parse and print numbers\<close>

definition is_digit :: "char \<Rightarrow> bool" where
  "is_digit c = (c \<in> set ''0123456789'')"

definition digit_val :: "char \<Rightarrow> nat" where
  "digit_val c = of_char c - 48"

definition digits_val :: "string \<Rightarrow> nat" where
  "digits_val ds = foldl (\<lambda>acc c. acc * 10 + digit_val c) 0 ds"

definition all_digits :: "string \<Rightarrow> bool" where
  "all_digits ds = (ds \<noteq> [] \<and> list_all is_digit ds)"

text \<open>
  \<open>strconv.Atoi\<close>: an optional sign and decimal digits. The result is the value and whether
  the error is \<open>nil\<close>. On a syntax error the value is 0; out of the range of a 64-bit \<open>int\<close>
  the error is set and the value is the nearest bound.
\<close>

definition Atoi :: "string \<Rightarrow> int \<times> bool" where
  "Atoi s =
     (let neg = (s \<noteq> [] \<and> hd s = CHR ''-'');
          ds = (if s \<noteq> [] \<and> (hd s = CHR ''-'' \<or> hd s = CHR ''+'') then tl s else s)
      in if \<not> all_digits ds then (0, False)
         else let n = int (digits_val ds); v = (if neg then - n else n)
              in if v > 2 ^ 63 - 1 then (2 ^ 63 - 1, False)
                 else if v < - (2 ^ 63) then (- (2 ^ 63), False)
                 else (v, True))"




text \<open>
  The verb \<open>%.2f\<close> of \<open>fmt.Sprintf\<close>: two decimals, rounded to the nearest, a tie to the
  even neighbour.
\<close>

definition round_half_even :: "real \<Rightarrow> int" where
  "round_half_even q =
     (let f = \<lfloor>q\<rfloor>; d = q - of_int f
      in if d < 1 / 2 then f else if d > 1 / 2 then f + 1 else if even f then f else f + 1)"

definition fmt_2f :: "real \<Rightarrow> string" where
  "fmt_2f x =
     (let n = nat (round_half_even (\<bar>x\<bar> * 100))
      in (if x < 0 then ''-'' else []) @ utoa (n div 100) @ ''.'' @
         [digit_char ((n div 10) mod 10), digit_char (n mod 10)])"

section \<open>Render plan compiler and progress parser (package video\_engine)\<close>

text \<open>
  A filter parameter map is kept as the list of its entries (the keys are distinct); the
  values have an opaque type \<open>'v\<close>, printed by the verb \<open>%v\<close>, a parameter \<open>fmtv\<close> of the
  model.
\<close>

record 'v VideoFilter =
  Name :: string
  Parameters :: "(string \<times> 'v) list"

record 'v RenderOptions =
  OutputFormat :: string
  Quality :: string
  Width :: int
  Height :: int
  FrameRate :: real
  VideoBitrate :: int
  AudioBitrate :: int
  Preset :: string
  CRF :: int
  Filters :: "'v VideoFilter list"


text \<open>
  \<open>for key, value := range m\<close> visits the entries of a map in an order the Go runtime
  chooses anew for every loop. The choice is an argument of the model: a list of positions;
  when it is a permutation of the positions of the entries they are visited in that order,
  otherwise in the order they are listed.
\<close>

definition range_map :: "nat list \<Rightarrow> ('k \<times> 'v) list \<Rightarrow> ('k \<times> 'v) list" where
  "range_map ord entries =
     (if sort ord = [0..<length entries] then map (\<lambda>i. entries ! i) ord else entries)"

text \<open>
  \<open>buildVideoFilters\<close>. \<open>ords\<close> holds the runtime's choices, one for each filter that has
  parameters, in turn.
\<close>

fun filterStrings :: "('v \<Rightarrow> string) \<Rightarrow> nat list list \<Rightarrow> 'v VideoFilter list \<Rightarrow> string list" where
  "filterStrings fmtv ords [] = []"
| "filterStrings fmtv ords (flt # rest) =
     (if length (Parameters flt) > 0
      then (Name flt @ ''='' @
              Join (map (\<lambda>(key, val). key @ ''='' @ fmtv val)
                      (range_map (case ords of [] \<Rightarrow> [] | ord # _ \<Rightarrow> ord) (Parameters flt))) '':'')
           # filterStrings fmtv (case ords of [] \<Rightarrow> [] | _ # os \<Rightarrow> os) rest
      else Name flt # filterStrings fmtv ords rest)"

definition buildVideoFilters :: "('v \<Rightarrow> string) \<Rightarrow> nat list list \<Rightarrow> 'v VideoFilter list \<Rightarrow> string" where
  "buildVideoFilters fmtv ords filters = Join (filterStrings fmtv ords filters) '',''"

text \<open>The quality stage of \<open>buildRenderArgs\<close>, the same in both versions of the function.\<close>

definition qualityArgs :: "('v, 'x) RenderOptions_scheme \<Rightarrow> string list" where
  "qualityArgs options =
     (if CRF options > 0 then [''-crf'', Itoa (CRF options)]
      else if Quality options = ''low'' then [''-crf'', ''28'']
      else if Quality options = ''medium'' then [''-crf'', ''23'']
      else if Quality options = ''high'' then [''-crf'', ''18'']
      else if Quality options = ''ultra'' then [''-crf'', ''15'']
      else [''-crf'', ''23''])"

text \<open>
  The stages of \<open>buildRenderArgs\<close> before the filters: codec, preset, quality, resolution,
  frame rate, bitrate, audio.
\<close>

definition encoderArgs :: "('v, 'x) RenderOptions_scheme \<Rightarrow> string list" where
  "encoderArgs options =
     [''-c:v'', ''libx264''] @
     (if Preset options \<noteq> [] then [''-preset'', Preset options] else [''-preset'', ''medium'']) @
     qualityArgs options @
     (if Width options > 0 \<and> Height options > 0
      then [''-s'', Itoa (Width options) @ ''x'' @ Itoa (Height options)] else []) @
     (if FrameRate options > 0 then [''-r'', fmt_2f (FrameRate options)] else []) @
     (if VideoBitrate options > 0 then [''-b:v'', Itoa (VideoBitrate options) @ ''k''] else []) @
     [''-c:a'', ''aac''] @
     (if AudioBitrate options > 0 then [''-b:a'', Itoa (AudioBitrate options) @ ''k'']
      else [''-b:a'', ''128k''])"

text \<open>
  \<open>buildRenderArgs\<close> of the processor whose options carry filters; \<open>None\<close> is the \<open>nil\<close>
  pointer.
\<close>

definition buildRenderArgs ::
  "('v \<Rightarrow> string) \<Rightarrow> nat list list \<Rightarrow> 'v RenderOptions option \<Rightarrow> string list" where
  "buildRenderArgs fmtv ords opt =
     (case opt of
        None \<Rightarrow> [''-c:v'', ''libx264'', ''-preset'', ''medium'', ''-crf'', ''23'']
      | Some options \<Rightarrow>
          encoderArgs options @
          (if length (Filters options) > 0
           then (let filterStr = buildVideoFilters fmtv ords (Filters options)
                 in if filterStr \<noteq> [] then [''-vf'', filterStr] else [])
           else []))"

text \<open>
  \<open>buildRenderArgs\<close> of \<open>ffmpeg_processor.go\<close>, whose \<open>RenderOptions\<close> has no filters: the
  same stages without the last.
\<close>

definition buildRenderArgs0 :: "('v, 'x) RenderOptions_scheme option \<Rightarrow> string list" where
  "buildRenderArgs0 opt =
     (case opt of
        None \<Rightarrow> [''-c:v'', ''libx264'', ''-preset'', ''medium'', ''-crf'', ''23'']
      | Some options \<Rightarrow> encoderArgs options)"




text \<open>
  The rate-control value as the specification words it: the explicit CRF when it is
  positive, otherwise the value of the named quality tier, 23 for any other name.
\<close>

definition spec_rate_control :: "('v, 'x) RenderOptions_scheme \<Rightarrow> int" where
  "spec_rate_control options =
     (if CRF options > 0 then CRF options
      else case map_of [(''low'', 28), (''medium'', 23), (''high'', 18), (''ultra'', 15)]
                  (Quality options) of
             Some v \<Rightarrow> v | None \<Rightarrow> 23)"

text \<open>
  A filter is serialized as \<open>z\<close>: its name, and when it has parameters \<open>=\<close> and the
  \<open>key=value\<close> pairs of its parameters in some order, joined by colons.
\<close>

definition serializes :: "('v \<Rightarrow> string) \<Rightarrow> string \<Rightarrow> 'v VideoFilter \<Rightarrow> bool" where
  "serializes fmtv z flt =
     (\<exists>ps. mset ps = mset (Parameters flt) \<and>
           z = Name flt @ (if ps = [] then []
                           else ''='' @ Join (map (\<lambda>(key, val). key @ ''='' @ fmtv val) ps) '':''))"



section \<open>Go library function \<open>sort.Slice\<close>\<close>

text \<open>
  \<open>scoreClips\<close> sorts with \<open>sort.Slice\<close>, and the order of clips with equal scores is
  whatever that function leaves. It is modelled as the Go release that the Makefile names
  (\<open>GO_VERSION := 1.21\<close>) implements it: pattern-defeating quicksort (\<open>pdqsort_func\<close> and
  its helpers in \<open>sort/zsortfunc.go\<close>). The slice is a list; \<open>data.Less(i, j)\<close> compares
  the elements at two positions with the function \<open>lt\<close>, \<open>data.Swap(i, j)\<close> exchanges
  them. Positions are natural numbers: the loops below never take one under 0.
\<close>

definition dataLess :: "('a \<Rightarrow> 'a \<Rightarrow> bool) \<Rightarrow> 'a list \<Rightarrow> nat \<Rightarrow> nat \<Rightarrow> bool" where
  "dataLess lt data i j = lt (data ! i) (data ! j)"

definition dataSwap :: "'a list \<Rightarrow> nat \<Rightarrow> nat \<Rightarrow> 'a list" where
  "dataSwap data i j = data[i := data ! j, j := data ! i]"

text \<open>\<open>insertionSort_func\<close>: the inner loop from position \<open>j\<close>, the outer loop from \<open>i\<close>.\<close>

function insertionInner :: "('a \<Rightarrow> 'a \<Rightarrow> bool) \<Rightarrow> nat \<Rightarrow> 'a list \<Rightarrow> nat \<Rightarrow> 'a list" where
  "insertionInner lt a data j =
     (if j > a \<and> dataLess lt data j (j - 1)
      then insertionInner lt a (dataSwap data j (j - 1)) (j - 1) else data)"
  by pat_completeness auto
termination
  by (relation "measure (\<lambda>(lt, a, data, j). j)") auto

declare insertionInner.simps [simp del]

function insertionOuter :: "('a \<Rightarrow> 'a \<Rightarrow> bool) \<Rightarrow> nat \<Rightarrow> nat \<Rightarrow> 'a list \<Rightarrow> nat \<Rightarrow> 'a list" where
  "insertionOuter lt a b data i =
     (if i < b then insertionOuter lt a b (insertionInner lt a data i) (i + 1) else data)"
  by pat_completeness auto
termination
  by (relation "measure (\<lambda>(lt, a, b, data, i). b - i)") auto

declare insertionOuter.simps [simp del]

definition insertionSort_func :: "('a \<Rightarrow> 'a \<Rightarrow> bool) \<Rightarrow> 'a list \<Rightarrow> nat \<Rightarrow> nat \<Rightarrow> 'a list" where
  "insertionSort_func lt data a b = insertionOuter lt a b data (a + 1)"

text \<open>\<open>siftDown_func\<close> and \<open>heapSort_func\<close>.\<close>

function siftDown_func :: "('a \<Rightarrow> 'a \<Rightarrow> bool) \<Rightarrow> 'a list \<Rightarrow> nat \<Rightarrow> nat \<Rightarrow> nat \<Rightarrow> 'a list" where
  "siftDown_func lt data root0 hi first =
     (let child = 2 * root0 + 1
      in if child \<ge> hi then data
         else let child' = (if child + 1 < hi \<and> dataLess lt data (first + child) (first + child + 1)
                            then child + 1 else child)
              in if \<not> dataLess lt data (first + root0) (first + child') then data
                 else siftDown_func lt (dataSwap data (first + root0) (first + child')) child' hi first)"
  by pat_completeness auto
termination
  by (relation "measure (\<lambda>(lt, data, root0, hi, first). hi - root0)") auto

declare siftDown_func.simps [simp del]

definition heapSort_func :: "('a \<Rightarrow> 'a \<Rightarrow> bool) \<Rightarrow> 'a list \<Rightarrow> nat \<Rightarrow> nat \<Rightarrow> 'a list" where
  "heapSort_func lt data a b =
     (let first = a; lo = 0; hi = b - a;
          heap = foldl (\<lambda>d i. siftDown_func lt d i hi first) data (rev [0..<(hi - 1) div 2 + 1])
      in foldl (\<lambda>d i. siftDown_func lt (dataSwap d first (first + i)) lo i first) heap (rev [0..<hi]))"

text \<open>
  The scans of the partition functions: \<open>for i <= j && p(i) { i++ }\<close> and
  \<open>for i <= j && p(j) { j-- }\<close>, for a condition \<open>p\<close> on a position. They are called with
  \<open>i > 0\<close>.
\<close>

function scanUp :: "(nat \<Rightarrow> bool) \<Rightarrow> nat \<Rightarrow> nat \<Rightarrow> nat" where
  "scanUp p i j = (if i \<le> j \<and> p i then scanUp p (i + 1) j else i)"
  by pat_completeness auto
termination
  by (relation "measure (\<lambda>(p, i, j). j + 1 - i)") auto

fun scanDown :: "(nat \<Rightarrow> bool) \<Rightarrow> nat \<Rightarrow> nat \<Rightarrow> nat" where
  "scanDown p i 0 = 0"
| "scanDown p i (Suc j) = (if i \<le> Suc j \<and> p (Suc j) then scanDown p i j else Suc j)"

lemma scanUp_ge: "i \<le> scanUp p i j"
proof (induction p i j rule: scanUp.induct)
  case (1 p i j)
  show ?case
  proof (cases "i \<le> j \<and> p i")
    case True
    then have "scanUp p i j = scanUp p (i + 1) j" by simp
    then show ?thesis using "1.IH" [OF True] by simp
  next
    case False
    then show ?thesis by simp
  qed
qed

lemma scanDown_le: "scanDown p i j \<le> j"
  by (induction j) (auto simp: le_SucI)

declare scanUp.simps [simp del]

text \<open>
  \<open>partition_func\<close>: its main loop, entered after the first exchange with the positions
  \<open>i\<close> and \<open>j\<close> already moved, and the function. The result is the slice, the new position
  of the pivot, and whether the slice was already partitioned.
\<close>

function partitionLoop ::
  "('a \<Rightarrow> 'a \<Rightarrow> bool) \<Rightarrow> 'a list \<Rightarrow> nat \<Rightarrow> nat \<Rightarrow> nat \<Rightarrow> 'a list \<times> nat" where
  "partitionLoop lt data a i j =
     (let i' = scanUp (\<lambda>i. dataLess lt data i a) i j;
          j' = scanDown (\<lambda>j. \<not> dataLess lt data j a) i' j
      in if i' > j' then (data, j') else partitionLoop lt (dataSwap data i' j') a (i' + 1) (j' - 1))"
  by pat_completeness auto
termination partitionLoop
proof (relation "measure (\<lambda>(lt, data, a, i, j). j + 1 - i)", goal_cases)
  case 1
  show ?case by simp
next
  case (2 lt data a i j i' j')
  then have "i \<le> i'" and "j' \<le> j" and "i' \<le> j'"
    using scanUp_ge [of i _ j] scanDown_le [of _ i' j] by auto
  then show ?case by auto
qed

declare partitionLoop.simps [simp del]

definition partition_func ::
  "('a \<Rightarrow> 'a \<Rightarrow> bool) \<Rightarrow> 'a list \<Rightarrow> nat \<Rightarrow> nat \<Rightarrow> nat \<Rightarrow> 'a list \<times> nat \<times> bool" where
  "partition_func lt data0 a b pivot =
     (let data = dataSwap data0 a pivot;
          i = scanUp (\<lambda>i. dataLess lt data i a) (a + 1) (b - 1);
          j = scanDown (\<lambda>j. \<not> dataLess lt data j a) i (b - 1)
      in if i > j then (dataSwap data j a, j, True)
         else let (data', j') = partitionLoop lt (dataSwap data i j) a (i + 1) (j - 1)
              in (dataSwap data' j' a, j', False))"

text \<open>\<open>partitionEqual_func\<close>: its loop and the function; the result is the slice and \<open>i\<close>.\<close>

function partitionEqualLoop ::
  "('a \<Rightarrow> 'a \<Rightarrow> bool) \<Rightarrow> 'a list \<Rightarrow> nat \<Rightarrow> nat \<Rightarrow> nat \<Rightarrow> 'a list \<times> nat" where
  "partitionEqualLoop lt data a i j =
     (let i' = scanUp (\<lambda>i. \<not> dataLess lt data a i) i j;
          j' = scanDown (\<lambda>j. dataLess lt data a j) i' j
      in if i' > j' then (data, i')
         else partitionEqualLoop lt (dataSwap data i' j') a (i' + 1) (j' - 1))"
  by pat_completeness auto
termination partitionEqualLoop
proof (relation "measure (\<lambda>(lt, data, a, i, j). j + 1 - i)", goal_cases)
  case 1
  show ?case by simp
next
  case (2 lt data a i j i' j')
  then have "i \<le> i'" and "j' \<le> j" and "i' \<le> j'"
    using scanUp_ge [of i _ j] scanDown_le [of _ i' j] by auto
  then show ?case by auto
qed

declare partitionEqualLoop.simps [simp del]

definition partitionEqual_func ::
  "('a \<Rightarrow> 'a \<Rightarrow> bool) \<Rightarrow> 'a list \<Rightarrow> nat \<Rightarrow> nat \<Rightarrow> nat \<Rightarrow> 'a list \<times> nat" where
  "partitionEqual_func lt data a b pivot =
     partitionEqualLoop lt (dataSwap data a pivot) a (a + 1) (b - 1)"

text \<open>
  \<open>partialInsertionSort_func\<close>: the scan over the sorted start, the two shifts, the loop of
  at most \<open>maxSteps = 5\<close> rounds, and the function. The result is the slice and whether it
  is sorted.
\<close>

function skipSorted :: "('a \<Rightarrow> 'a \<Rightarrow> bool) \<Rightarrow> 'a list \<Rightarrow> nat \<Rightarrow> nat \<Rightarrow> nat" where
  "skipSorted lt data b i =
     (if i < b \<and> \<not> dataLess lt data i (i - 1) then skipSorted lt data b (i + 1) else i)"
  by pat_completeness auto
termination
  by (relation "measure (\<lambda>(lt, data, b, i). b - i)") auto

declare skipSorted.simps [simp del]

fun shiftLeft :: "('a \<Rightarrow> 'a \<Rightarrow> bool) \<Rightarrow> 'a list \<Rightarrow> nat \<Rightarrow> 'a list" where
  "shiftLeft lt data 0 = data"
| "shiftLeft lt data (Suc j) =
     (if \<not> dataLess lt data (Suc j) j then data else shiftLeft lt (dataSwap data (Suc j) j) j)"

function shiftRight :: "('a \<Rightarrow> 'a \<Rightarrow> bool) \<Rightarrow> 'a list \<Rightarrow> nat \<Rightarrow> nat \<Rightarrow> 'a list" where
  "shiftRight lt data b j =
     (if j < b
      then (if \<not> dataLess lt data j (j - 1) then data
            else shiftRight lt (dataSwap data j (j - 1)) b (j + 1))
      else data)"
  by pat_completeness auto
termination
  by (relation "measure (\<lambda>(lt, data, b, j). b - j)") auto

declare shiftRight.simps [simp del]

primrec partialInsertionLoop ::
  "nat \<Rightarrow> ('a \<Rightarrow> 'a \<Rightarrow> bool) \<Rightarrow> 'a list \<Rightarrow> nat \<Rightarrow> nat \<Rightarrow> nat \<Rightarrow> 'a list \<times> bool" where
  "partialInsertionLoop 0 lt data a b i = (data, False)"
| "partialInsertionLoop (Suc steps) lt data a b i0 =
     (let i = skipSorted lt data b i0
      in if i = b then (data, True)
         else if b - a < 50 then (data, False)
         else let data1 = dataSwap data i (i - 1);
                  data2 = (if i - a \<ge> 2 then shiftLeft lt data1 (i - 1) else data1);
                  data3 = (if b - i \<ge> 2 then shiftRight lt data2 b (i + 1) else data2)
              in partialInsertionLoop steps lt data3 a b i)"

definition partialInsertionSort_func ::
  "('a \<Rightarrow> 'a \<Rightarrow> bool) \<Rightarrow> 'a list \<Rightarrow> nat \<Rightarrow> nat \<Rightarrow> 'a list \<times> bool" where
  "partialInsertionSort_func lt data a b = partialInsertionLoop 5 lt data a b (a + 1)"

text \<open>
  \<open>breakPatterns_func\<close>. The step \<open>Next\<close> of the generator \<open>xorshift\<close> is a parameter \<open>nxt\<close>
  of the model; \<open>bitsLen\<close> is \<open>bits.Len\<close>.
\<close>

fun bitsLen :: "nat \<Rightarrow> nat" where
  "bitsLen n = (if n = 0 then 0 else Suc (bitsLen (n div 2)))"

declare bitsLen.simps [simp del]

definition nextPowerOfTwo :: "nat \<Rightarrow> nat" where
  "nextPowerOfTwo len = 2 ^ bitsLen len"

definition breakPatterns_func :: "(64 word \<Rightarrow> 64 word) \<Rightarrow> 'a list \<Rightarrow> nat \<Rightarrow> nat \<Rightarrow> 'a list" where
  "breakPatterns_func nxt data a b =
     (let len = b - a
      in if len \<ge> 8
         then let modulus = nextPowerOfTwo len;
                  idx = a + (len div 4) * 2 - 1;
                  other = (\<lambda>r. let x = unat (r AND (word_of_nat modulus - 1))
                                in if x \<ge> len then x - len else x);
                  r1 = nxt (word_of_nat len); r2 = nxt r1; r3 = nxt r2;
                  data1 = dataSwap data (idx - 1 + 0) (a + other r1);
                  data2 = dataSwap data1 (idx - 1 + 1) (a + other r2)
              in dataSwap data2 (idx - 1 + 2) (a + other r3)
         else data)"

text \<open>\<open>choosePivot_func\<close> with \<open>order2_func\<close>, \<open>median_func\<close> and \<open>medianAdjacent_func\<close>.\<close>

datatype sortedHint = unknownHint | increasingHint | decreasingHint

definition order2_func ::
  "('a \<Rightarrow> 'a \<Rightarrow> bool) \<Rightarrow> 'a list \<Rightarrow> nat \<Rightarrow> nat \<Rightarrow> nat \<Rightarrow> nat \<times> nat \<times> nat" where
  "order2_func lt data a b swaps =
     (if dataLess lt data b a then (b, a, swaps + 1) else (a, b, swaps))"

definition median_func ::
  "('a \<Rightarrow> 'a \<Rightarrow> bool) \<Rightarrow> 'a list \<Rightarrow> nat \<Rightarrow> nat \<Rightarrow> nat \<Rightarrow> nat \<Rightarrow> nat \<times> nat" where
  "median_func lt data a b c swaps =
     (let (a1, b1, s1) = order2_func lt data a b swaps;
          (b2, c2, s2) = order2_func lt data b1 c s1;
          (a3, b3, s3) = order2_func lt data a1 b2 s2
      in (b3, s3))"

definition medianAdjacent_func ::
  "('a \<Rightarrow> 'a \<Rightarrow> bool) \<Rightarrow> 'a list \<Rightarrow> nat \<Rightarrow> nat \<Rightarrow> nat \<times> nat" where
  "medianAdjacent_func lt data a swaps = median_func lt data (a - 1) a (a + 1) swaps"

definition choosePivot_func ::
  "('a \<Rightarrow> 'a \<Rightarrow> bool) \<Rightarrow> 'a list \<Rightarrow> nat \<Rightarrow> nat \<Rightarrow> nat \<times> sortedHint" where
  "choosePivot_func lt data a b =
     (let l = b - a;
          i = a + l div 4 * 1;
          j = a + l div 4 * 2;
          k = a + l div 4 * 3;
          (pivot, swaps) =
            (if l \<ge> 8
             then (if l \<ge> 50
                   then (let (i1, s1) = medianAdjacent_func lt data i 0;
                             (j1, s2) = medianAdjacent_func lt data j s1;
                             (k1, s3) = medianAdjacent_func lt data k s2
                         in median_func lt data i1 j1 k1 s3)
                   else median_func lt data i j k 0)
             else (j, 0))
      in (pivot, if swaps = 0 then increasingHint
                 else if swaps = 4 * 3 then decreasingHint else unknownHint))"

text \<open>\<open>reverseRange_func\<close>.\<close>

function reverseLoop :: "'a list \<Rightarrow> nat \<Rightarrow> nat \<Rightarrow> 'a list" where
  "reverseLoop data i j = (if i < j then reverseLoop (dataSwap data i j) (i + 1) (j - 1) else data)"
  by pat_completeness auto
termination
  by (relation "measure (\<lambda>(data, i, j). j - i)") auto

declare reverseLoop.simps [simp del]

definition reverseRange_func :: "'a list \<Rightarrow> nat \<Rightarrow> nat \<Rightarrow> 'a list" where
  "reverseRange_func data a b = reverseLoop data a (b - 1)"

text \<open>
  \<open>pdqsort_func\<close>: one equation for its loop and its recursive call. \<open>wasBalanced\<close> and
  \<open>wasPartitioned\<close> are the variables of the loop, \<open>True\<close> on entry. The first argument
  bounds the depth of the recursion: every round goes on with a strictly shorter part of
  the slice, so that the length of the slice plus one is enough; \<open>None\<close> says that the
  bound was reached.
\<close>

primrec pdqsort_func ::
  "nat \<Rightarrow> (64 word \<Rightarrow> 64 word) \<Rightarrow> ('a \<Rightarrow> 'a \<Rightarrow> bool) \<Rightarrow> 'a list \<Rightarrow> nat \<Rightarrow> nat \<Rightarrow> nat \<Rightarrow> bool \<Rightarrow> bool
     \<Rightarrow> 'a list option" where
  "pdqsort_func 0 nxt lt data a b limit wasBalanced wasPartitioned = None"
| "pdqsort_func (Suc depth) nxt lt data a b limit wasBalanced wasPartitioned =
     (let len = b - a
      in if len \<le> 12 then Some (insertionSort_func lt data a b)
         else if limit = 0 then Some (heapSort_func lt data a b)
         else
           let data1 = (if \<not> wasBalanced then breakPatterns_func nxt data a b else data);
               limit1 = (if \<not> wasBalanced then limit - 1 else limit);
               (pivot0, hint0) = choosePivot_func lt data1 a b;
               data2 = (if hint0 = decreasingHint then reverseRange_func data1 a b else data1);
               pivot = (if hint0 = decreasingHint then (b - 1) - (pivot0 - a) else pivot0);
               hint = (if hint0 = decreasingHint then increasingHint else hint0);
               (data3, sorted) = (if wasBalanced \<and> wasPartitioned \<and> hint = increasingHint
                                  then partialInsertionSort_func lt data2 a b else (data2, False))
           in if sorted then Some data3
              else if a > 0 \<and> \<not> dataLess lt data3 (a - 1) pivot
              then (let (data4, mid) = partitionEqual_func lt data3 a b pivot
                    in pdqsort_func depth nxt lt data4 mid b limit1 wasBalanced wasPartitioned)
              else
                (let (data4, mid, alreadyPartitioned) = partition_func lt data3 a b pivot;
                     leftLen = mid - a;
                     rightLen = b - mid;
                     balanceThreshold = len div 8
                 in if leftLen < rightLen
                    then (case pdqsort_func depth nxt lt data4 a mid limit1 True True of
                            None \<Rightarrow> None
                          | Some data5 \<Rightarrow>
                              pdqsort_func depth nxt lt data5 (mid + 1) b limit1
                                (leftLen \<ge> balanceThreshold) alreadyPartitioned)
                    else (case pdqsort_func depth nxt lt data4 (mid + 1) b limit1 True True of
                            None \<Rightarrow> None
                          | Some data5 \<Rightarrow>
                              pdqsort_func depth nxt lt data5 a mid limit1
                                (rightLen \<ge> balanceThreshold) alreadyPartitioned)))"

text \<open>\<open>sort.Slice\<close>, with \<open>less(i, j)\<close> comparing the elements at \<open>i\<close> and \<open>j\<close> by \<open>lt\<close>.\<close>

definition sort_Slice ::
  "(64 word \<Rightarrow> 64 word) \<Rightarrow> ('a \<Rightarrow> 'a \<Rightarrow> bool) \<Rightarrow> 'a list \<Rightarrow> 'a list option" where
  "sort_Slice nxt lt x =
     pdqsort_func (length x + 1) nxt lt x 0 (length x) (bitsLen (length x)) True True"

text \<open>
  What one round of the outer loop of \<open>insertionSort_func\<close> does to the sorted start of
  the slice, written on the reversed start \<open>y # ys\<close> (its last element first): the new
  element \<open>x\<close> moves left past the elements that it is less than.
\<close>

fun insertBack :: "('a \<Rightarrow> 'a \<Rightarrow> bool) \<Rightarrow> 'a \<Rightarrow> 'a list \<Rightarrow> 'a list" where
  "insertBack lt x [] = [x]"
| "insertBack lt x (y # ys) = (if lt x y then y # insertBack lt x ys else x # y # ys)"


section \<open>Smart compositor (package video\_engine)\<close>

text \<open>
  A value of type \<open>interface{}\<close> in a clip's metadata: a \<open>float64\<close>, or anything else.
\<close>

datatype anyval = Float64 real | Other string

text \<open>
  \<open>models.AtomicClip\<close>, with the fields the compositor reads or writes. The metadata map
  (\<open>models.JSON\<close>) is a partial function; reading a \<open>nil\<close> map is reading the empty one.
\<close>

record AtomicClip =
  clip_ID :: nat
  clip_Duration :: real
  clip_Resolution :: string
  clip_FrameRate :: real
  clip_Bitrate :: int
  clip_Category :: string
  clip_Mood :: string
  clip_Style :: string
  clip_Metadata :: "string \<rightharpoonup> anyval"

record CompositionRequirements =
  TargetDuration :: real
  Theme :: string
  req_Mood :: string
  req_Style :: string
  PrimaryColors :: "string list"
  SecondaryColors :: "string list"
  MusicTempo :: string
  TransitionStyle :: string
  MinClipDuration :: real
  MaxClipDuration :: real
  ContentBalance :: "(string \<times> real) list"
  AvoidRepetition :: bool
  PreferHighQuality :: bool

record Transition =
  tr_Type :: string
  tr_Duration :: real
  Easing :: string

record ClipSegment =
  ClipID :: nat
  seg_StartTime :: real
  seg_EndTime :: real
  seg_Duration :: real
  seg_Score :: real
  Reason :: string
  Transitions :: "Transition list"

text \<open>The two shapes of \<open>Properties\<close> that \<open>generateTimeline\<close> stores in an event.\<close>

datatype properties = ClipProperties nat real real | TransitionProperties Transition

record TimelineEvent =
  ev_Type :: string
  ev_StartTime :: real
  ev_Duration :: real
  Properties :: properties

record CompositionContext =
  PreviousClips :: "AtomicClip list"
  CurrentPosition :: real
  RemainingTime :: real

subsection \<open>Timeline assembler\<close>

text \<open>
  \<open>selectTransition\<close>. The random generator is a sequence \<open>rnd\<close> of numbers and the count
  \<open>k\<close> of those already drawn; \<open>rand.Intn(n)\<close> is the next number modulo \<open>n\<close>. The result is
  the transition and the new count.
\<close>

definition transitionTypes :: "string list" where
  "transitionTypes = [''fade'', ''dissolve'', ''slide'', ''wipe'', ''cut'']"

definition selectTransition ::
  "(nat \<Rightarrow> nat) \<Rightarrow> nat \<Rightarrow> CompositionRequirements \<Rightarrow> ClipSegment \<Rightarrow> ClipSegment \<Rightarrow> Transition \<times> nat" where
  "selectTransition rnd k requirements fromClip toClip =
     (if TransitionStyle requirements = ''fast''
      then (\<lparr>tr_Type = ''cut'', tr_Duration = 0.1, Easing = ''ease-in-out''\<rparr>, k)
      else if TransitionStyle requirements = ''smooth''
      then (\<lparr>tr_Type = ''dissolve'', tr_Duration = 1.0, Easing = ''ease-in-out''\<rparr>, k)
      else if TransitionStyle requirements = ''dynamic''
      then (\<lparr>tr_Type = transitionTypes ! (rnd k mod length transitionTypes), tr_Duration = 0.3,
             Easing = ''ease-in-out''\<rparr>, Suc k)
      else (\<lparr>tr_Type = ''dissolve'', tr_Duration = 0.5, Easing = ''ease-in-out''\<rparr>, k))"

text \<open>
  The loop of \<open>generateTimeline\<close> from the clip at hand on: \<open>currentTime\<close> is the time
  reached, \<open>clip # rest\<close> the clips still to place; a clip is the last one when \<open>rest\<close> is
  empty.
\<close>

fun timelineFrom ::
  "(nat \<Rightarrow> nat) \<Rightarrow> CompositionRequirements \<Rightarrow> nat \<Rightarrow> real \<Rightarrow> ClipSegment list \<Rightarrow> TimelineEvent list" where
  "timelineFrom rnd requirements k currentTime [] = []"
| "timelineFrom rnd requirements k currentTime (clip # rest) =
     \<lparr>ev_Type = ''clip'', ev_StartTime = currentTime, ev_Duration = seg_Duration clip,
      Properties = ClipProperties (ClipID clip) (seg_StartTime clip) (seg_EndTime clip)\<rparr> #
     (let currentTime' = currentTime + seg_Duration clip
      in case rest of
           [] \<Rightarrow> timelineFrom rnd requirements k currentTime' rest
         | next_clip # _ \<Rightarrow>
             (let (transition, k') = selectTransition rnd k requirements clip next_clip
              in \<lparr>ev_Type = ''transition'',
                  ev_StartTime = currentTime' - tr_Duration transition / 2,
                  ev_Duration = tr_Duration transition,
                  Properties = TransitionProperties transition\<rparr> #
                 timelineFrom rnd requirements k' currentTime' rest))"

definition generateTimeline ::
  "(nat \<Rightarrow> nat) \<Rightarrow> CompositionRequirements \<Rightarrow> ClipSegment list \<Rightarrow> TimelineEvent list" where
  "generateTimeline rnd requirements clips = timelineFrom rnd requirements 0 0 clips"

text \<open>The types of the events of a timeline of \<open>n\<close> clips with a transition between neighbours.\<close>

fun alternating :: "nat \<Rightarrow> string list" where
  "alternating 0 = []"
| "alternating (Suc 0) = [''clip'']"
| "alternating (Suc (Suc n)) = ''clip'' # ''transition'' # alternating (Suc n)"

subsection \<open>Selection engine\<close>

text \<open>
  \<open>findBestClip\<close>: the first clip that is not used and is at least as long as the minimum;
  \<open>None\<close> is \<open>nil\<close>. The set \<open>usedClips\<close> holds the keys that the map sends to \<open>true\<close>.
\<close>

fun findBestClip ::
  "AtomicClip list \<Rightarrow> nat set \<Rightarrow> real \<Rightarrow> CompositionRequirements \<Rightarrow> AtomicClip option" where
  "findBestClip [] usedClips remainingDuration requirements = None"
| "findBestClip (clip # clips) usedClips remainingDuration requirements =
     (if clip_ID clip \<in> usedClips
      then findBestClip clips usedClips remainingDuration requirements
      else if clip_Duration clip \<ge> MinClipDuration requirements then Some clip
      else findBestClip clips usedClips remainingDuration requirements)"

text \<open>
  The duration a chosen clip is given (it is cut to the remaining budget) and the segment
  appended for it in the body of the loop of \<open>SelectClips\<close>.
\<close>

definition clipDurationOf :: "AtomicClip \<Rightarrow> real \<Rightarrow> real" where
  "clipDurationOf bestClip remainingDuration =
     (if clip_Duration bestClip > remainingDuration then remainingDuration
      else clip_Duration bestClip)"

definition segmentOf :: "AtomicClip \<Rightarrow> real \<Rightarrow> real \<Rightarrow> ClipSegment" where
  "segmentOf bestClip clipDuration score =
     \<lparr>ClipID = clip_ID bestClip, seg_StartTime = 0, seg_EndTime = clipDuration,
      seg_Duration = clipDuration, seg_Score = score, Reason = ''Smart selection algorithm'',
      Transitions = []\<rparr>"

text \<open>
  The loop of \<open>SelectClips\<close>, from a state of its three variables. The result is \<open>Inl\<close> with
  the message of the panic when the type assertion on the metadata entry
  \<open>composition_score\<close> fails, and \<open>Inr\<close> with the selected segments when the loop ends.
\<close>

function selectLoop ::
  "AtomicClip list \<Rightarrow> CompositionRequirements \<Rightarrow> ClipSegment list \<Rightarrow> real \<Rightarrow> nat set
     \<Rightarrow> string + ClipSegment list" where
  "selectLoop clips requirements selectedClips remainingDuration usedClips =
     (if remainingDuration > MinClipDuration requirements \<and> length selectedClips < length clips
      then (case findBestClip clips usedClips remainingDuration requirements of
              None \<Rightarrow> Inr selectedClips
            | Some bestClip \<Rightarrow>
                (case clip_Metadata bestClip ''composition_score'' of
                   Some (Float64 score) \<Rightarrow>
                     selectLoop clips requirements
                       (selectedClips @
                          [segmentOf bestClip (clipDurationOf bestClip remainingDuration) score])
                       (remainingDuration - clipDurationOf bestClip remainingDuration)
                       (insert (clip_ID bestClip) usedClips)
                 | _ \<Rightarrow> Inl ''interface conversion: interface {} is not float64''))
      else Inr selectedClips)"
  by pat_completeness auto
termination
  by (relation "measure (\<lambda>(clips, requirements, selectedClips, remainingDuration, usedClips).
        length clips - length selectedClips)") auto

declare selectLoop.simps [simp del]

text \<open>
  \<open>SelectClips\<close> of the smart selection algorithm: the panic, or the segments and the error
  (\<open>None\<close> is \<open>nil\<close>).
\<close>

definition SelectClips ::
  "AtomicClip list \<Rightarrow> CompositionRequirements \<Rightarrow> string + (ClipSegment list \<times> string option)" where
  "SelectClips clips requirements =
     (case selectLoop clips requirements [] (TargetDuration requirements) {} of
        Inl panic \<Rightarrow> Inl panic
      | Inr selectedClips \<Rightarrow> Inr (selectedClips, None))"


subsection \<open>Scoring\<close>

text \<open>
  \<open>Score\<close> of the smart selection algorithm with its three fitness functions. When the
  minimum and the maximum clip duration are equal and the clip has that duration, the
  source divides 0 by 0 and the score is NaN, which the model does not have (the quotient
  is 0 here).
\<close>

definition calculateDurationFitness :: "real \<Rightarrow> CompositionRequirements \<Rightarrow> real" where
  "calculateDurationFitness duration requirements =
     (if duration < MinClipDuration requirements \<or> duration > MaxClipDuration requirements
      then 0.0
      else let ideal = (MinClipDuration requirements + MaxClipDuration requirements) / 2;
               deviation = \<bar>duration - ideal\<bar>;
               maxDeviation = MaxClipDuration requirements - ideal
           in 1.0 - (deviation / maxDeviation))"

definition calculateThemeFitness :: "AtomicClip \<Rightarrow> CompositionRequirements \<Rightarrow> real" where
  "calculateThemeFitness clip requirements =
     (if Theme requirements \<noteq> [] \<and> clip_Category clip = Theme requirements then 0.5 else 0) +
     (if req_Mood requirements \<noteq> [] \<and> clip_Mood clip = req_Mood requirements then 0.3 else 0) +
     (if req_Style requirements \<noteq> [] \<and> clip_Style clip = req_Style requirements then 0.2 else 0)"

definition calculateQualityFitness :: "AtomicClip \<Rightarrow> CompositionRequirements \<Rightarrow> real" where
  "calculateQualityFitness clip requirements =
     (if clip_Resolution clip = ''1920x1080'' then 0.5
      else if clip_Resolution clip = ''1280x720'' then 0.3 else 0) +
     (if clip_Bitrate clip \<ge> 2000 then 0.3 else if clip_Bitrate clip \<ge> 1000 then 0.2 else 0) +
     (if clip_FrameRate clip \<ge> 30 then 0.2 else 0)"

definition Score :: "AtomicClip \<Rightarrow> CompositionRequirements \<Rightarrow> CompositionContext \<Rightarrow> real" where
  "Score clip requirements context =
     calculateDurationFitness (clip_Duration clip) requirements * 0.3 +
     calculateThemeFitness clip requirements * 0.4 +
     calculateQualityFitness clip requirements * 0.3"

text \<open>
  The score that the comparison of \<open>scoreClips\<close> reads from a clip: the metadata entry
  \<open>composition_score\<close> when it is a \<open>float64\<close>, otherwise 0.
\<close>

definition compositionScore :: "AtomicClip \<Rightarrow> real" where
  "compositionScore clip =
     (case clip_Metadata clip ''composition_score'' of Some (Float64 score) \<Rightarrow> score | _ \<Rightarrow> 0)"

definition scoreLess :: "AtomicClip \<Rightarrow> AtomicClip \<Rightarrow> bool" where
  "scoreLess clipI clipJ = (compositionScore clipI > compositionScore clipJ)"

text \<open>
  The first loop of \<open>scoreClips\<close>: every clip of the copy gets the score that the
  algorithm's \<open>Score\<close> method (\<open>algorithmScore\<close>) gives it, stored in its metadata. Every
  clip has a metadata map of its own here (in the source the copy shares the maps with
  the catalog).
\<close>

definition scoredCopy ::
  "(AtomicClip \<Rightarrow> CompositionRequirements \<Rightarrow> CompositionContext \<Rightarrow> real) \<Rightarrow> CompositionRequirements
     \<Rightarrow> AtomicClip list \<Rightarrow> AtomicClip list" where
  "scoredCopy algorithmScore requirements clips =
     map (\<lambda>clip. clip\<lparr>clip_Metadata := (clip_Metadata clip)
            (''composition_score'' \<mapsto>
               Float64 (algorithmScore clip requirements
                  \<lparr>PreviousClips = [], CurrentPosition = 0,
                   RemainingTime = TargetDuration requirements\<rparr>))\<rparr>) clips"

text \<open>
  \<open>scoreClips\<close> for an algorithm with the scoring function \<open>algorithmScore\<close>: the scored
  copy, sorted by \<open>sort.Slice\<close> with the comparison \<open>scoreI > scoreJ\<close>. The result is
  \<open>None\<close> only if the bound of \<open>sort_Slice\<close> was reached.
\<close>

definition scoreClips ::
  "(64 word \<Rightarrow> 64 word) \<Rightarrow> (AtomicClip \<Rightarrow> CompositionRequirements \<Rightarrow> CompositionContext \<Rightarrow> real)
     \<Rightarrow> CompositionRequirements \<Rightarrow> AtomicClip list \<Rightarrow> AtomicClip list option" where
  "scoreClips nxt algorithmScore requirements clips =
     sort_Slice nxt scoreLess (scoredCopy algorithmScore requirements clips)"


section \<open>Proofs: job queue\<close>





lemma PublishTask_priority_le:
  "(q, m) \<in> set (ready (snd (PublishTask env now queueName task \<lparr>ready = [], acked = [], dead = []\<rparr>)))
   \<Longrightarrow> PubPriority m \<le> 10"
  by (auto simp: PublishTask_def Let_def split: if_splits)





text \<open>
  C8. \<open>PublishTask\<close> converts the priority to \<open>uint8\<close> before it clamps: a task of priority
  256 is published with priority 0 (and one of priority 11 with priority 10). The
  published priority is always at most 10 (\<open>PublishTask_priority_le\<close>), but a priority
  above 10 is not always clamped to 10.
\<close>

theorem PublishTask_priority_wraps:
  "map (\<lambda>x. PubPriority (snd x))
     (ready (snd (PublishTask Published now q (CreateTask now ty pl 256)
        \<lparr>ready = [], acked = [], dead = []\<rparr>))) = [0] \<and>
   map (\<lambda>x. PubPriority (snd x))
     (ready (snd (PublishTask Published now q (CreateTask now ty pl 11)
        \<lparr>ready = [], acked = [], dead = []\<rparr>))) = [10]"
  by (simp add: PublishTask_def CreateTask_def Let_def)

section \<open>Proofs: render plan compiler\<close>

lemma digit_char_cases:
  assumes "d < 10"
  shows "is_digit (digit_char d) \<and> digit_val (digit_char d) = d \<and>
         digit_char d \<noteq> CHR ''-'' \<and> digit_char d \<noteq> CHR ''+''"
proof -
  from assms have "d \<in> {0, 1, 2, 3, 4, 5, 6, 7, 8, 9}" by auto
  then show ?thesis
    by (auto simp: is_digit_def digit_val_def digit_char_def)
qed

lemma digits_val_snoc: "digits_val (ds @ [c]) = digits_val ds * 10 + digit_val c"
  by (simp add: digits_val_def)

lemma utoa_digits:
  "utoa n \<noteq> [] \<and> list_all is_digit (utoa n) \<and> digits_val (utoa n) = n \<and>
   hd (utoa n) \<noteq> CHR ''-'' \<and> hd (utoa n) \<noteq> CHR ''+''"
proof (induction n rule: utoa.induct)
  case (1 n)
  show ?case
  proof (cases "n < 10")
    case True
    then have "utoa n = [digit_char n]" by (subst utoa.simps) simp
    then show ?thesis using digit_char_cases [OF True] by (simp add: digits_val_def)
  next
    case False
    then have u: "utoa n = utoa (n div 10) @ [digit_char (n mod 10)]"
      by (subst utoa.simps) simp
    have d: "n mod 10 < 10" by simp
    show ?thesis
      unfolding u using "1.IH" [OF False] digit_char_cases [OF d]
      by (simp add: digits_val_snoc)
  qed
qed

lemma Atoi_Itoa:
  assumes "- (2 ^ 63) \<le> n" and "n \<le> 2 ^ 63 - 1"
  shows "Atoi (Itoa n) = (n, True)"
proof (cases "n < 0")
  case True
  then show ?thesis
    using assms utoa_digits [of "nat (- n)"]
    by (simp add: Atoi_def Itoa_def all_digits_def Let_def)
next
  case False
  have "hd (utoa (nat n)) \<noteq> CHR ''-''" "hd (utoa (nat n)) \<noteq> CHR ''+''"
    using utoa_digits [of "nat n"] by simp_all
  then show ?thesis
    using False assms utoa_digits [of "nat n"]
    by (simp add: Atoi_def Itoa_def all_digits_def Let_def)
qed

lemma Itoa_tiers: "Itoa 28 = ''28''" "Itoa 23 = ''23''" "Itoa 18 = ''18''" "Itoa 15 = ''15''"
  by code_simp+

text \<open>
  C2. In the argument list of both versions of \<open>buildRenderArgs\<close>, for every options
  value, the fifth argument is \<open>-crf\<close> and the sixth is the rate-control value of the
  specification in decimal: the explicit CRF when it is positive, otherwise 28, 23, 18 or
  15 for the quality low, medium, high or ultra, and 23 for any other quality. The decimal
  text denotes exactly that number: \<open>Atoi\<close> reads it back, for every CRF that a 64-bit
  \<open>int\<close> holds.
\<close>

theorem buildRenderArgs_rate_control:
  "take 2 (drop 4 (buildRenderArgs fmtv ords (Some options)))
     = [''-crf'', Itoa (spec_rate_control options)] \<and>
   take 2 (drop 4 (buildRenderArgs0 (Some options)))
     = [''-crf'', Itoa (spec_rate_control options)] \<and>
   (CRF options \<le> 2 ^ 63 - 1 \<longrightarrow>
      Atoi (Itoa (spec_rate_control options)) = (spec_rate_control options, True))"
proof (intro conjI impI)
  show "take 2 (drop 4 (buildRenderArgs fmtv ords (Some options)))
     = [''-crf'', Itoa (spec_rate_control options)]"
    by (simp add: buildRenderArgs_def encoderArgs_def qualityArgs_def spec_rate_control_def
        Itoa_tiers)
next
  show "take 2 (drop 4 (buildRenderArgs0 (Some options)))
     = [''-crf'', Itoa (spec_rate_control options)]"
    by (simp add: buildRenderArgs0_def encoderArgs_def qualityArgs_def spec_rate_control_def
        Itoa_tiers)
next
  assume "CRF options \<le> 2 ^ 63 - 1"
  then have "- (2 ^ 63) \<le> spec_rate_control options \<and> spec_rate_control options \<le> 2 ^ 63 - 1"
    by (simp add: spec_rate_control_def)
  then show "Atoi (Itoa (spec_rate_control options)) = (spec_rate_control options, True)"
    using Atoi_Itoa by blast
qed

theorem buildRenderArgs_rate_control_witness:
  "take 2 (drop 4 (buildRenderArgs (\<lambda>v. v) []
     (Some \<lparr>OutputFormat = ''mp4'', Quality = ''ultra'', Width = 1920, Height = 1080,
            FrameRate = 30, VideoBitrate = 0, AudioBitrate = 0, Preset = [], CRF = 0,
            Filters = []\<rparr>))) = [''-crf'', ''15''] \<and>
   take 2 (drop 4 (buildRenderArgs (\<lambda>v. v) []
     (Some \<lparr>OutputFormat = ''mp4'', Quality = ''ultra'', Width = 1920, Height = 1080,
            FrameRate = 30, VideoBitrate = 0, AudioBitrate = 0, Preset = [], CRF = 20,
            Filters = []\<rparr>))) = [''-crf'', Itoa 20] \<and>
   Atoi (Itoa 20) = (20, True)"
  using buildRenderArgs_rate_control [of "\<lambda>v. v" "[]"
      "\<lparr>OutputFormat = ''mp4'', Quality = ''ultra'', Width = 1920, Height = 1080,
            FrameRate = 30, VideoBitrate = 0, AudioBitrate = 0, Preset = [], CRF = 0,
            Filters = []\<rparr>"]
    buildRenderArgs_rate_control [of "\<lambda>v. v" "[]"
      "\<lparr>OutputFormat = ''mp4'', Quality = ''ultra'', Width = 1920, Height = 1080,
            FrameRate = 30, VideoBitrate = 0, AudioBitrate = 0, Preset = [], CRF = 20,
            Filters = []\<rparr>"]
  by (simp add: spec_rate_control_def Itoa_tiers)

lemma mset_range_map: "mset (range_map ord ps) = mset ps"
proof (cases "sort ord = [0..<length ps]")
  case True
  then have "mset ord = mset [0..<length ps]" by (metis mset_sort)
  then have "mset (map (\<lambda>i. ps ! i) ord) = mset (map (\<lambda>i. ps ! i) [0..<length ps])"
    by (metis mset_map)
  then show ?thesis using True by (simp add: range_map_def map_nth)
next
  case False
  then show ?thesis by (simp add: range_map_def)
qed

lemma range_map_small:
  assumes "length ps \<le> 1"
  shows "range_map ord ps = ps"
proof (cases "sort ord = [0..<length ps]")
  case True
  have "length (sort ord) = length ord" by simp
  then have len: "length ord = length ps" using True by simp
  show ?thesis
  proof (cases ps)
    case Nil
    then show ?thesis using len by (simp add: range_map_def)
  next
    case (Cons p qs)
    then have qs: "qs = []" using assms by simp
    then obtain i where ord: "ord = [i]" using len Cons by (cases ord) auto
    then have "i = 0" using True Cons qs by simp
    then show ?thesis using ord Cons qs by (simp add: range_map_def)
  qed
next
  case False
  then show ?thesis by (simp add: range_map_def)
qed

lemma range_map_Nil_iff: "range_map ord ps = [] \<longleftrightarrow> ps = []"
  by (metis mset_range_map mset_zero_iff)

lemma filterStrings_serializes:
  "list_all2 (serializes fmtv) (filterStrings fmtv ords filters) filters"
proof (induction filters arbitrary: ords)
  case Nil
  show ?case by simp
next
  case (Cons flt rest)
  show ?case
  proof (cases "length (Parameters flt) > 0")
    case True
    let ?ps = "range_map (case ords of [] \<Rightarrow> [] | ord # _ \<Rightarrow> ord) (Parameters flt)"
    have "?ps \<noteq> []" using True by (simp add: range_map_Nil_iff)
    then have "serializes fmtv
        (Name flt @ ''='' @ Join (map (\<lambda>(key, val). key @ ''='' @ fmtv val) ?ps) '':'') flt"
      unfolding serializes_def using mset_range_map [of _ "Parameters flt"]
      by (intro exI [of _ ?ps]) simp
    then show ?thesis using True Cons.IH by simp
  next
    case False
    then have "serializes fmtv (Name flt) flt"
      unfolding serializes_def by (intro exI [of _ "[]"]) simp
    then show ?thesis using False Cons.IH by simp
  qed
qed

lemma filterStrings_small:
  assumes "\<forall>flt \<in> set filters. length (Parameters flt) \<le> 1"
  shows "filterStrings fmtv ords filters = filterStrings fmtv ords' filters"
  using assms
proof (induction filters arbitrary: ords ords')
  case Nil
  show ?case by simp
next
  case (Cons flt rest)
  then have "length (Parameters flt) \<le> 1" by simp
  then have r: "range_map ord (Parameters flt) = Parameters flt" for ord
    by (rule range_map_small)
  have "filterStrings fmtv os rest = filterStrings fmtv os' rest" for os os'
    using Cons by simp
  then show ?case by (simp add: r)
qed

text \<open>
  C9, as amended. For fixed options every run of \<open>buildRenderArgs\<close> yields the arguments of
  the encoder stages, which do not depend on the run, followed (when there are filters and
  their string is not empty) by \<open>-vf\<close> and the filters in their order, joined by commas,
  each serialized as its name, \<open>=\<close> and its \<open>key=value\<close> pairs joined by colons: the pairs
  stand in the order in which the runtime visits the parameter map, some permutation of
  the parameters. When no filter has more than one parameter, two runs yield the same
  argument list. Without options the list is constant.
\<close>

theorem buildRenderArgs_runs:
  "(\<exists>zs. list_all2 (serializes fmtv) zs (Filters options) \<and>
         buildRenderArgs fmtv ords (Some options) =
           encoderArgs options @
           (if Filters options = [] \<or> Join zs '','' = [] then [] else [''-vf'', Join zs '','']))
   \<and> ((\<forall>flt \<in> set (Filters options). length (Parameters flt) \<le> 1) \<longrightarrow>
        buildRenderArgs fmtv ords (Some options) = buildRenderArgs fmtv ords' (Some options))
   \<and> buildRenderArgs fmtv ords None = buildRenderArgs fmtv ords' None"
proof (intro conjI impI)
  show "\<exists>zs. list_all2 (serializes fmtv) zs (Filters options) \<and>
         buildRenderArgs fmtv ords (Some options) =
           encoderArgs options @
           (if Filters options = [] \<or> Join zs '','' = [] then [] else [''-vf'', Join zs '',''])"
    using filterStrings_serializes [of fmtv ords "Filters options"]
    by (intro exI [of _ "filterStrings fmtv ords (Filters options)"])
       (simp add: buildRenderArgs_def buildVideoFilters_def Let_def)
next
  assume "\<forall>flt \<in> set (Filters options). length (Parameters flt) \<le> 1"
  then have "filterStrings fmtv ords (Filters options) = filterStrings fmtv ords' (Filters options)"
    by (rule filterStrings_small)
  then show "buildRenderArgs fmtv ords (Some options) = buildRenderArgs fmtv ords' (Some options)"
    by (simp add: buildRenderArgs_def buildVideoFilters_def)
next
  show "buildRenderArgs fmtv ords None = buildRenderArgs fmtv ords' None"
    by (simp add: buildRenderArgs_def)
qed

theorem buildRenderArgs_runs_witness:
  "buildRenderArgs (\<lambda>v. v) [[0]]
     (Some \<lparr>OutputFormat = ''mp4'', Quality = ''high'', Width = 1280, Height = 720,
            FrameRate = 30, VideoBitrate = 2500, AudioBitrate = 0, Preset = ''fast'', CRF = 0,
            Filters = [\<lparr>Name = ''hflip'', Parameters = []\<rparr>,
                       \<lparr>Name = ''fps'', Parameters = [(''fps'', ''30'')]\<rparr>]\<rparr>) =
   buildRenderArgs (\<lambda>v. v) []
     (Some \<lparr>OutputFormat = ''mp4'', Quality = ''high'', Width = 1280, Height = 720,
            FrameRate = 30, VideoBitrate = 2500, AudioBitrate = 0, Preset = ''fast'', CRF = 0,
            Filters = [\<lparr>Name = ''hflip'', Parameters = []\<rparr>,
                       \<lparr>Name = ''fps'', Parameters = [(''fps'', ''30'')]\<rparr>]\<rparr>)"
  using buildRenderArgs_runs [of "\<lambda>v. v"
      "\<lparr>OutputFormat = ''mp4'', Quality = ''high'', Width = 1280, Height = 720,
            FrameRate = 30, VideoBitrate = 2500, AudioBitrate = 0, Preset = ''fast'', CRF = 0,
            Filters = [\<lparr>Name = ''hflip'', Parameters = []\<rparr>,
                       \<lparr>Name = ''fps'', Parameters = [(''fps'', ''30'')]\<rparr>]\<rparr>" "[[0]]" "[]"]
  by simp

text \<open>
  C9, as stated, fails: for a filter \<open>scale\<close> with the parameters \<open>w\<close> and \<open>h\<close>, a run that
  visits the map in one order yields \<open>scale=w=1280:h=720\<close> and a run that visits it in the
  other yields \<open>scale=h=720:w=1280\<close>.
\<close>

theorem buildRenderArgs_order_counterexample:
  "buildRenderArgs (\<lambda>v. v) [[0, 1]]
     (Some \<lparr>OutputFormat = ''mp4'', Quality = ''high'', Width = 0, Height = 0,
            FrameRate = 0, VideoBitrate = 0, AudioBitrate = 0, Preset = [], CRF = 0,
            Filters = [\<lparr>Name = ''scale'', Parameters = [(''w'', ''1280''), (''h'', ''720'')]\<rparr>]\<rparr>)
     = [''-c:v'', ''libx264'', ''-preset'', ''medium'', ''-crf'', ''18'', ''-c:a'', ''aac'',
        ''-b:a'', ''128k'', ''-vf'', ''scale=w=1280:h=720''] \<and>
   buildRenderArgs (\<lambda>v. v) [[1, 0]]
     (Some \<lparr>OutputFormat = ''mp4'', Quality = ''high'', Width = 0, Height = 0,
            FrameRate = 0, VideoBitrate = 0, AudioBitrate = 0, Preset = [], CRF = 0,
            Filters = [\<lparr>Name = ''scale'', Parameters = [(''w'', ''1280''), (''h'', ''720'')]\<rparr>]\<rparr>)
     = [''-c:v'', ''libx264'', ''-preset'', ''medium'', ''-crf'', ''18'', ''-c:a'', ''aac'',
        ''-b:a'', ''128k'', ''-vf'', ''scale=h=720:w=1280'']"
  by (simp add: buildRenderArgs_def encoderArgs_def qualityArgs_def buildVideoFilters_def
      range_map_def Join_def)

section \<open>Proofs: progress parser\<close>






section \<open>Proofs: timeline assembler\<close>

lemma types_timelineFrom:
  "map ev_Type (timelineFrom rnd requirements k currentTime clips) = alternating (length clips)"
proof (induction clips arbitrary: k currentTime)
  case Nil
  show ?case by simp
next
  case (Cons clip rest)
  show ?case
  proof (cases rest)
    case Nil
    then show ?thesis by simp
  next
    case (Cons next_clip rest')
    then show ?thesis using Cons.IH by (simp add: Let_def split: prod.splits)
  qed
qed

lemma alternating_clips: "length (filter (\<lambda>t. t = ''clip'') (alternating n)) = n"
  by (induction n rule: alternating.induct) simp_all

lemma alternating_transitions: "length (filter (\<lambda>t. t = ''transition'') (alternating n)) = n - 1"
  by (induction n rule: alternating.induct) simp_all

lemma alternating_hd: "n > 0 \<Longrightarrow> hd (alternating n) = ''clip''"
  by (induction n rule: alternating.induct) simp_all

lemma alternating_Nil: "alternating n = [] \<longleftrightarrow> n = 0"
  by (induction n rule: alternating.induct) simp_all

lemma alternating_last: "n > 0 \<Longrightarrow> last (alternating n) = ''clip''"
  by (induction n rule: alternating.induct) (simp_all add: alternating_Nil)

text \<open>
  C6. For every non-empty list of \<open>N\<close> segments, whatever the transition style and the
  random numbers, \<open>generateTimeline\<close> emits exactly \<open>N\<close> events of type \<open>clip\<close> and \<open>N - 1\<close>
  of type \<open>transition\<close>; the first and the last event are clips, and the types alternate:
  clip, transition, clip, ..., clip.
\<close>

theorem generateTimeline_events:
  assumes "clips \<noteq> []"
  shows "length (filter (\<lambda>e. ev_Type e = ''clip'') (generateTimeline rnd requirements clips))
           = length clips \<and>
         length (filter (\<lambda>e. ev_Type e = ''transition'') (generateTimeline rnd requirements clips))
           = length clips - 1 \<and>
         ev_Type (hd (generateTimeline rnd requirements clips)) = ''clip'' \<and>
         ev_Type (last (generateTimeline rnd requirements clips)) = ''clip'' \<and>
         map ev_Type (generateTimeline rnd requirements clips) = alternating (length clips)"
proof -
  let ?tl = "generateTimeline rnd requirements clips"
  have m: "map ev_Type ?tl = alternating (length clips)"
    by (simp add: generateTimeline_def types_timelineFrom)
  have n: "length clips > 0" using assms by simp
  have ne: "?tl \<noteq> []" using m n alternating_Nil [of "length clips"] by auto
  have f: "length (filter (\<lambda>e. ev_Type e = s) ?tl) = length (filter (\<lambda>t. t = s) (map ev_Type ?tl))" for s
    by (simp add: filter_map comp_def)
  have "ev_Type (hd ?tl) = hd (map ev_Type ?tl)" using ne by (simp add: hd_map)
  moreover have "ev_Type (last ?tl) = last (map ev_Type ?tl)" using ne by (simp add: last_map)
  ultimately show ?thesis
    using m n f alternating_clips alternating_transitions alternating_hd alternating_last
    by simp
qed

theorem generateTimeline_events_witness:
  "map ev_Type
     (generateTimeline (\<lambda>k. 3 * k + 2)
        \<lparr>TargetDuration = 30, Theme = ''nature'', req_Mood = ''calm'', req_Style = ''cinematic'',
         PrimaryColors = [], SecondaryColors = [], MusicTempo = ''medium'',
         TransitionStyle = ''dynamic'', MinClipDuration = 5, MaxClipDuration = 15,
         ContentBalance = [], AvoidRepetition = True, PreferHighQuality = True\<rparr>
        (map (\<lambda>i. \<lparr>ClipID = i, seg_StartTime = 0, seg_EndTime = 10, seg_Duration = 10,
                    seg_Score = 0.85, Reason = ''Smart selection algorithm'',
                    Transitions = []\<rparr>) [1, 2, 3]))
   = [''clip'', ''transition'', ''clip'', ''transition'', ''clip'']"
  using generateTimeline_events [of
        "map (\<lambda>i. \<lparr>ClipID = i, seg_StartTime = 0, seg_EndTime = 10, seg_Duration = 10,
                    seg_Score = 0.85, Reason = ''Smart selection algorithm'',
                    Transitions = []\<rparr>) [1, 2, 3]"
        "\<lambda>k. 3 * k + 2"
        "\<lparr>TargetDuration = 30, Theme = ''nature'', req_Mood = ''calm'', req_Style = ''cinematic'',
         PrimaryColors = [], SecondaryColors = [], MusicTempo = ''medium'',
         TransitionStyle = ''dynamic'', MinClipDuration = 5, MaxClipDuration = 15,
         ContentBalance = [], AvoidRepetition = True, PreferHighQuality = True\<rparr>"]
  by (simp add: numeral_3_eq_3)

section \<open>Proofs: selection engine\<close>

lemma findBestClip_Some:
  assumes "findBestClip clips usedClips r requirements = Some best"
  shows "best \<in> set clips \<and> clip_ID best \<notin> usedClips \<and>
         clip_Duration best \<ge> MinClipDuration requirements"
  using assms by (induction clips) (auto split: if_splits)

lemma findBestClip_None:
  assumes "\<forall>c \<in> set clips. clip_Duration c < MinClipDuration requirements"
  shows "findBestClip clips usedClips r requirements = None"
  using assms by (induction clips) auto



lemma selectLoop_stop:
  assumes "\<not> (r > MinClipDuration requirements \<and> length sel < length clips)"
  shows "selectLoop clips requirements sel r used = Inr sel"
  by (subst selectLoop.simps) (simp only: assms if_False)

lemma selectLoop_none:
  assumes "findBestClip clips used r requirements = None"
  shows "selectLoop clips requirements sel r used = Inr sel"
  by (subst selectLoop.simps) (simp add: assms)

lemma selectLoop_step:
  assumes "r > MinClipDuration requirements" and "length sel < length clips"
    and "findBestClip clips used r requirements = Some best"
    and "clip_Metadata best ''composition_score'' = Some (Float64 score)"
  shows "selectLoop clips requirements sel r used =
         selectLoop clips requirements (sel @ [segmentOf best (clipDurationOf best r) score])
           (r - clipDurationOf best r) (insert (clip_ID best) used)"
  by (subst selectLoop.simps) (simp add: assms)

lemma selectLoop_panic:
  assumes "r > MinClipDuration requirements" and "length sel < length clips"
    and "findBestClip clips used r requirements = Some best"
    and "\<forall>score. clip_Metadata best ''composition_score'' \<noteq> Some (Float64 score)"
  shows "selectLoop clips requirements sel r used =
         Inl ''interface conversion: interface {} is not float64''"
  using assms by (subst selectLoop.simps) (simp split: option.splits anyval.splits)

text \<open>The rule of the loop invariant: what holds of the state of the loop when it ends.\<close>

lemma selectLoop_invariant:
  assumes "selectLoop clips requirements sel r used = Inr segs"
    and "P sel r used"
    and "\<And>sel r used best score.
           P sel r used \<Longrightarrow> r > MinClipDuration requirements \<Longrightarrow> length sel < length clips \<Longrightarrow>
           findBestClip clips used r requirements = Some best \<Longrightarrow>
           clip_Metadata best ''composition_score'' = Some (Float64 score) \<Longrightarrow>
           P (sel @ [segmentOf best (clipDurationOf best r) score]) (r - clipDurationOf best r)
             (insert (clip_ID best) used)"
  shows "\<exists>r' used'. P segs r' used' \<and>
           (\<not> (r' > MinClipDuration requirements \<and> length segs < length clips) \<or>
            findBestClip clips used' r' requirements = None)"
  using assms
proof (induction clips requirements sel r used rule: selectLoop.induct)
  case (1 clips requirements sel r used)
  show ?case
  proof (cases "r > MinClipDuration requirements \<and> length sel < length clips")
    case False
    then have "segs = sel" using "1.prems"(1) selectLoop_stop by simp
    then show ?thesis using "1.prems"(2) False by blast
  next
    case True
    show ?thesis
    proof (cases "findBestClip clips used r requirements")
      case None
      then have "segs = sel" using "1.prems"(1) selectLoop_none by simp
      then show ?thesis using "1.prems"(2) None by blast
    next
      case (Some best)
      show ?thesis
      proof (cases "\<exists>score. clip_Metadata best ''composition_score'' = Some (Float64 score)")
        case False
        then show ?thesis using True Some "1.prems"(1) selectLoop_panic by simp
      next
        case ex: True
        then obtain score where sc: "clip_Metadata best ''composition_score'' = Some (Float64 score)"
          by blast
        have rec: "selectLoop clips requirements (sel @ [segmentOf best (clipDurationOf best r) score])
                     (r - clipDurationOf best r) (insert (clip_ID best) used) = Inr segs"
          using True Some sc "1.prems"(1) selectLoop_step by simp
        have P': "P (sel @ [segmentOf best (clipDurationOf best r) score]) (r - clipDurationOf best r)
             (insert (clip_ID best) used)"
          using "1.prems"(3) [OF "1.prems"(2) _ _ Some sc] True by blast
        show ?thesis
          using "1.IH" [OF True Some sc refl rec P' "1.prems"(3)] by blast
      qed
    qed
  qed
qed


lemma selectLoop_returns:
  assumes "\<forall>c \<in> set clips. \<exists>score. clip_Metadata c ''composition_score'' = Some (Float64 score)"
  shows "\<exists>segs. selectLoop clips requirements sel r used = Inr segs"
  using assms
proof (induction clips requirements sel r used rule: selectLoop.induct)
  case (1 clips requirements sel r used)
  show ?case
  proof (cases "r > MinClipDuration requirements \<and> length sel < length clips")
    case False
    then show ?thesis using selectLoop_stop by blast
  next
    case True
    show ?thesis
    proof (cases "findBestClip clips used r requirements")
      case None
      then show ?thesis using selectLoop_none by blast
    next
      case (Some best)
      then have "best \<in> set clips" using findBestClip_Some by blast
      then obtain score where sc: "clip_Metadata best ''composition_score'' = Some (Float64 score)"
        using "1.prems" by blast
      show ?thesis
        using "1.IH" [OF True Some sc refl "1.prems"] selectLoop_step [of requirements r sel clips used best score]
          True Some sc by simp
    qed
  qed
qed

lemma SelectClips_Inr:
  "SelectClips clips requirements = Inr (segs, err) \<longleftrightarrow>
     selectLoop clips requirements [] (TargetDuration requirements) {} = Inr segs \<and> err = None"
  by (auto simp: SelectClips_def split: sum.splits)

text \<open>
  C10. Whenever \<open>SelectClips\<close> returns, the clip IDs of the returned segments are pairwise
  distinct, whatever the requirements (the flag \<open>AvoidRepetition\<close> is never read) and also
  when several candidates share an ID. It does return, without an error, whenever every
  candidate carries a \<open>float64\<close> score in its metadata, as \<open>scoreClips\<close> leaves them.
\<close>

theorem SelectClips_distinct:
  "(SelectClips clips requirements = Inr (segs, err) \<longrightarrow> distinct (map ClipID segs)) \<and>
   ((\<forall>c \<in> set clips. \<exists>score. clip_Metadata c ''composition_score'' = Some (Float64 score)) \<longrightarrow>
      (\<exists>segs'. SelectClips clips requirements = Inr (segs', None)))"
proof (intro conjI impI)
  assume "SelectClips clips requirements = Inr (segs, err)"
  then have run: "selectLoop clips requirements [] (TargetDuration requirements) {} = Inr segs"
    by (simp add: SelectClips_Inr)
  have "\<exists>r' used'. (distinct (map ClipID segs) \<and> set (map ClipID segs) \<subseteq> used') \<and>
           (\<not> (r' > MinClipDuration requirements \<and> length segs < length clips) \<or>
            findBestClip clips used' r' requirements = None)"
  proof (rule selectLoop_invariant
      [where P = "\<lambda>sel r used. distinct (map ClipID sel) \<and> set (map ClipID sel) \<subseteq> used", OF run])
    show "distinct (map ClipID []) \<and> set (map ClipID []) \<subseteq> {}" by simp
  next
    fix sel :: "ClipSegment list" and r used best score
    assume inv: "distinct (map ClipID sel) \<and> set (map ClipID sel) \<subseteq> used"
      and "findBestClip clips used r requirements = Some best"
    then have "clip_ID best \<notin> used" using findBestClip_Some by blast
    then show "distinct (map ClipID (sel @ [segmentOf best (clipDurationOf best r) score])) \<and>
          set (map ClipID (sel @ [segmentOf best (clipDurationOf best r) score]))
            \<subseteq> insert (clip_ID best) used"
      using inv by (auto simp: segmentOf_def)
  qed
  then show "distinct (map ClipID segs)" by blast
next
  assume "\<forall>c \<in> set clips. \<exists>score. clip_Metadata c ''composition_score'' = Some (Float64 score)"
  then obtain segs' where "selectLoop clips requirements [] (TargetDuration requirements) {} = Inr segs'"
    using selectLoop_returns by blast
  then show "\<exists>segs'. SelectClips clips requirements = Inr (segs', None)"
    by (simp add: SelectClips_Inr)
qed

theorem SelectClips_distinct_witness:
  "SelectClips
     (map (\<lambda>(i, d). \<lparr>clip_ID = i, clip_Duration = d, clip_Resolution = ''1280x720'',
                 clip_FrameRate = 25, clip_Bitrate = 1500, clip_Category = ''city'',
                 clip_Mood = ''tense'', clip_Style = ''raw'',
                 clip_Metadata = [''composition_score'' \<mapsto> Float64 0.5]\<rparr>) [(7, 4), (7, 6), (9, 3)])
     \<lparr>TargetDuration = 100, Theme = ''city'', req_Mood = ''tense'', req_Style = ''raw'',
      PrimaryColors = [], SecondaryColors = [], MusicTempo = ''fast'', TransitionStyle = ''fast'',
      MinClipDuration = 1, MaxClipDuration = 8, ContentBalance = [], AvoidRepetition = False,
      PreferHighQuality = False\<rparr>
   = Inr (map (\<lambda>(i, d). \<lparr>ClipID = i, seg_StartTime = 0, seg_EndTime = d, seg_Duration = d,
                      seg_Score = 0.5, Reason = ''Smart selection algorithm'',
                      Transitions = []\<rparr>) [(7, 4), (9, 3)], None) \<and>
   distinct (map ClipID
     (map (\<lambda>(i, d). \<lparr>ClipID = i, seg_StartTime = 0, seg_EndTime = d, seg_Duration = d,
                      seg_Score = 0.5, Reason = ''Smart selection algorithm'',
                      Transitions = []\<rparr>) [(7, 4), (9, 3)]))"
proof -
  let ?clips = "map (\<lambda>(i, d). \<lparr>clip_ID = i, clip_Duration = d, clip_Resolution = ''1280x720'',
                 clip_FrameRate = 25, clip_Bitrate = 1500, clip_Category = ''city'',
                 clip_Mood = ''tense'', clip_Style = ''raw'',
                 clip_Metadata = [''composition_score'' \<mapsto> Float64 0.5]\<rparr>) [(7, 4), (7, 6), (9, 3)]"
  let ?req = "\<lparr>TargetDuration = 100, Theme = ''city'', req_Mood = ''tense'', req_Style = ''raw'',
      PrimaryColors = [], SecondaryColors = [], MusicTempo = ''fast'', TransitionStyle = ''fast'',
      MinClipDuration = 1, MaxClipDuration = 8, ContentBalance = [], AvoidRepetition = False,
      PreferHighQuality = False\<rparr>"
  let ?segs = "map (\<lambda>(i, d). \<lparr>ClipID = i, seg_StartTime = 0, seg_EndTime = d, seg_Duration = d,
                      seg_Score = 0.5, Reason = ''Smart selection algorithm'',
                      Transitions = []\<rparr>) [(7, 4), (9, 3)]"
  have ev: "SelectClips ?clips ?req = Inr (?segs, None)"
    by (simp add: SelectClips_def selectLoop.simps segmentOf_def clipDurationOf_def)
  from SelectClips_distinct [of ?clips ?req ?segs None] ev show ?thesis by blast
qed




text \<open>
  C5, as amended. \<open>SelectClips\<close> never returns an error: whenever it returns, the error is
  \<open>nil\<close>. For an empty candidate set, and when no candidate is as long as the minimum clip
  duration, it returns the empty selection and no error.
\<close>

theorem SelectClips_no_error:
  "(SelectClips clips requirements = Inr (segs, err) \<longrightarrow> err = None) \<and>
   SelectClips [] requirements = Inr ([], None) \<and>
   ((\<forall>c \<in> set clips. clip_Duration c < MinClipDuration requirements) \<longrightarrow>
      SelectClips clips requirements = Inr ([], None))"
proof (intro conjI impI)
  assume "SelectClips clips requirements = Inr (segs, err)"
  then show "err = None" by (simp add: SelectClips_Inr)
next
  show "SelectClips [] requirements = Inr ([], None)"
    by (simp add: SelectClips_Inr selectLoop_stop)
next
  assume "\<forall>c \<in> set clips. clip_Duration c < MinClipDuration requirements"
  then have "findBestClip clips {} (TargetDuration requirements) requirements = None"
    by (rule findBestClip_None)
  then show "SelectClips clips requirements = Inr ([], None)"
    by (simp add: SelectClips_Inr selectLoop_none)
qed

theorem SelectClips_no_error_witness:
  "SelectClips
     (map (\<lambda>(i, d). \<lparr>clip_ID = i, clip_Duration = d, clip_Resolution = ''1280x720'',
                 clip_FrameRate = 25, clip_Bitrate = 1500, clip_Category = ''city'',
                 clip_Mood = ''tense'', clip_Style = ''raw'',
                 clip_Metadata = [''composition_score'' \<mapsto> Float64 0.5]\<rparr>) [(1, 2), (2, 3)])
     \<lparr>TargetDuration = 30, Theme = ''city'', req_Mood = ''tense'', req_Style = ''raw'',
      PrimaryColors = [], SecondaryColors = [], MusicTempo = ''fast'', TransitionStyle = ''fast'',
      MinClipDuration = 5, MaxClipDuration = 15, ContentBalance = [], AvoidRepetition = True,
      PreferHighQuality = False\<rparr>
   = Inr ([], None)"
  using SelectClips_no_error [of
     "map (\<lambda>(i, d). \<lparr>clip_ID = i, clip_Duration = d, clip_Resolution = ''1280x720'',
                 clip_FrameRate = 25, clip_Bitrate = 1500, clip_Category = ''city'',
                 clip_Mood = ''tense'', clip_Style = ''raw'',
                 clip_Metadata = [''composition_score'' \<mapsto> Float64 0.5]\<rparr>) [(1, 2), (2, 3)]"
     "\<lparr>TargetDuration = 30, Theme = ''city'', req_Mood = ''tense'', req_Style = ''raw'',
      PrimaryColors = [], SecondaryColors = [], MusicTempo = ''fast'', TransitionStyle = ''fast'',
      MinClipDuration = 5, MaxClipDuration = 15, ContentBalance = [], AvoidRepetition = True,
      PreferHighQuality = False\<rparr>"]
  by simp

text \<open>
  C5, as stated, fails: for the empty candidate set, and for one candidate of duration 2
  under a minimum of 5, \<open>SelectClips\<close> returns the empty selection with the error \<open>nil\<close>.
\<close>

theorem SelectClips_no_error_counterexample:
  "SelectClips []
     \<lparr>TargetDuration = 30, Theme = ''nature'', req_Mood = ''calm'', req_Style = ''cinematic'',
      PrimaryColors = [], SecondaryColors = [], MusicTempo = ''medium'', TransitionStyle = ''smooth'',
      MinClipDuration = 5, MaxClipDuration = 15, ContentBalance = [], AvoidRepetition = True,
      PreferHighQuality = True\<rparr>
   = Inr ([], None) \<and>
   SelectClips
     [\<lparr>clip_ID = 1, clip_Duration = 2, clip_Resolution = ''1920x1080'',
       clip_FrameRate = 30, clip_Bitrate = 2500, clip_Category = ''nature'',
       clip_Mood = ''calm'', clip_Style = ''cinematic'',
       clip_Metadata = [''composition_score'' \<mapsto> Float64 0.85]\<rparr>]
     \<lparr>TargetDuration = 30, Theme = ''nature'', req_Mood = ''calm'', req_Style = ''cinematic'',
      PrimaryColors = [], SecondaryColors = [], MusicTempo = ''medium'', TransitionStyle = ''smooth'',
      MinClipDuration = 5, MaxClipDuration = 15, ContentBalance = [], AvoidRepetition = True,
      PreferHighQuality = True\<rparr>
   = Inr ([], None)"
  by (simp add: SelectClips_def selectLoop.simps)

section \<open>Proofs: scoring and ordering\<close>

lemma dataSwap_adjacent:
  "dataSwap (xs @ y # x # zs) (Suc (length xs)) (length xs) = xs @ x # y # zs"
  by (simp add: dataSwap_def list_update_append nth_append)

lemma insertionInner_insertBack:
  "insertionInner lt 0 (rev r @ x # post) (length r) = rev (insertBack lt x r) @ post"
proof (induction r arbitrary: post)
  case Nil
  show ?case by (subst insertionInner.simps) simp
next
  case (Cons y r)
  show ?case
  proof (cases "lt x y")
    case True
    have less: "dataLess lt (rev (y # r) @ x # post) (length (y # r)) (length (y # r) - 1)"
      using True by (simp add: dataLess_def nth_append)
    have sw: "dataSwap (rev (y # r) @ x # post) (length (y # r)) (length (y # r) - 1)
               = rev r @ x # y # post"
      using dataSwap_adjacent [of "rev r" y x post] by simp
    have "insertionInner lt 0 (rev (y # r) @ x # post) (length (y # r))
            = insertionInner lt 0 (rev r @ x # y # post) (length r)"
      by (subst insertionInner.simps) (simp only: less sw, simp)
    then show ?thesis using Cons.IH [of "y # post"] True by simp
  next
    case False
    then have "\<not> dataLess lt (rev (y # r) @ x # post) (length (y # r)) (length (y # r) - 1)"
      by (simp add: dataLess_def nth_append)
    then have "insertionInner lt 0 (rev (y # r) @ x # post) (length (y # r))
                 = rev (y # r) @ x # post"
      by (subst insertionInner.simps) simp
    then show ?thesis using False by simp
  qed
qed

lemma insertionOuter_foldl:
  "insertionOuter lt 0 (length r + length todo) (rev r @ todo) (length r)
     = rev (foldl (\<lambda>r x. insertBack lt x r) r todo)"
proof (induction todo arbitrary: r)
  case Nil
  show ?case by (subst insertionOuter.simps) simp
next
  case (Cons x todo)
  have len: "length (insertBack lt x r) = Suc (length r)" for r
    by (induction r) auto
  have "insertionOuter lt 0 (length r + length (x # todo)) (rev r @ x # todo) (length r)
          = insertionOuter lt 0 (length r + length (x # todo))
              (rev (insertBack lt x r) @ todo) (length r + 1)"
    by (subst insertionOuter.simps) (simp add: insertionInner_insertBack)
  also have "\<dots> = rev (foldl (\<lambda>r x. insertBack lt x r) (insertBack lt x r) todo)"
    using Cons.IH [of "insertBack lt x r"] by (simp add: len)
  finally show ?case by simp
qed

lemma insertionSort_func_foldl:
  "insertionSort_func lt data 0 (length data) = rev (foldl (\<lambda>r x. insertBack lt x r) [] data)"
proof (cases data)
  case Nil
  then show ?thesis
    unfolding insertionSort_func_def by (subst insertionOuter.simps) simp
next
  case (Cons x todo)
  then show ?thesis
    unfolding insertionSort_func_def using insertionOuter_foldl [of lt "[x]" todo] by simp
qed

lemma mset_insertBack: "mset (insertBack lt x r) = add_mset x (mset r)"
  by (induction r) auto

lemma mset_foldl_insertBack:
  "mset (foldl (\<lambda>r x. insertBack lt x r) r todo) = mset r + mset todo"
  by (induction todo arbitrary: r) (auto simp: mset_insertBack)

lemma set_insertBack: "set (insertBack lt x r) = insert x (set r)"
  by (metis mset_insertBack set_mset_add_mset_insert set_mset_mset)

lemma sorted_insertBack:
  fixes key :: "'a \<Rightarrow> real"
  assumes "\<And>a b. lt a b \<longleftrightarrow> key a > key b"
    and "sorted_wrt (\<lambda>a b. key a \<le> key b) r"
  shows "sorted_wrt (\<lambda>a b. key a \<le> key b) (insertBack lt x r)"
  using assms(2)
proof (induction r)
  case Nil
  show ?case by simp
next
  case (Cons y r)
  show ?case
  proof (cases "lt x y")
    case True
    then have "key y \<le> key x" using assms(1) by auto
    then show ?thesis using True Cons by (auto simp: set_insertBack)
  next
    case False
    then have "key x \<le> key y" using assms(1) by auto
    then show ?thesis using False Cons.prems by fastforce
  qed
qed

lemma sorted_foldl_insertBack:
  fixes key :: "'a \<Rightarrow> real"
  assumes "\<And>a b. lt a b \<longleftrightarrow> key a > key b"
    and "sorted_wrt (\<lambda>a b. key a \<le> key b) r"
  shows "sorted_wrt (\<lambda>a b. key a \<le> key b) (foldl (\<lambda>r x. insertBack lt x r) r todo)"
  using assms(2)
  by (induction todo arbitrary: r) (auto simp: sorted_insertBack [OF assms(1)])

lemma filter_insertBack:
  fixes key :: "'a \<Rightarrow> real"
  assumes "\<And>a b. lt a b \<longleftrightarrow> key a > key b"
  shows "filter (\<lambda>c. key c = s) (insertBack lt x r)
           = filter (\<lambda>c. key c = s) [x] @ filter (\<lambda>c. key c = s) r"
proof (induction r)
  case Nil
  show ?case by simp
next
  case (Cons y r)
  show ?case
  proof (cases "lt x y")
    case True
    then have "key x \<noteq> key y" using assms by auto
    then show ?thesis using True Cons by auto
  next
    case False
    then show ?thesis by simp
  qed
qed

lemma filter_foldl_insertBack:
  fixes key :: "'a \<Rightarrow> real"
  assumes "\<And>a b. lt a b \<longleftrightarrow> key a > key b"
  shows "filter (\<lambda>c. key c = s) (rev (foldl (\<lambda>r x. insertBack lt x r) r todo))
           = filter (\<lambda>c. key c = s) (rev r) @ filter (\<lambda>c. key c = s) todo"
proof (induction todo arbitrary: r)
  case Nil
  show ?case by simp
next
  case (Cons x todo)
  have "filter (\<lambda>c. key c = s) (rev (insertBack lt x r))
          = filter (\<lambda>c. key c = s) (rev r) @ filter (\<lambda>c. key c = s) [x]"
    using filter_insertBack [OF assms, where s = s and x = x and r = r] by (simp only: rev_filter [symmetric] rev_append) simp
  then show ?case using Cons.IH [of "insertBack lt x r"] by simp
qed

lemma sort_Slice_short:
  assumes "length x \<le> 12"
  shows "sort_Slice nxt lt x = Some (rev (foldl (\<lambda>r x. insertBack lt x r) [] x))"
  using assms by (simp add: sort_Slice_def insertionSort_func_foldl)

text \<open>
  C3, as amended. For every candidate list of at most 12 clips, every scoring function and
  every requirements value, \<open>scoreClips\<close> returns the scored clips ordered by score,
  descending, and the ordering is stable: for every score, the clips of that score stand
  in the result in the order in which they stand in the scored copy, which is the order of
  their IDs in the catalog list. (\<open>sort.Slice\<close> sorts a slice of at most 12 elements by
  insertion.)
\<close>

lemma scoredCopy_catalog:
  "map clip_ID (filter (\<lambda>c. compositionScore c = s) (scoredCopy algorithmScore requirements clips))
     = map clip_ID (filter (\<lambda>c. algorithmScore c requirements
          \<lparr>PreviousClips = [], CurrentPosition = 0,
           RemainingTime = TargetDuration requirements\<rparr> = s) clips)"
  by (induction clips) (simp_all add: scoredCopy_def compositionScore_def)

theorem scoreClips_stable_short:
  assumes "length clips \<le> 12"
  shows "\<exists>sorted. scoreClips nxt algorithmScore requirements clips = Some sorted \<and>
           mset sorted = mset (scoredCopy algorithmScore requirements clips) \<and>
           sorted_wrt (\<lambda>a b. compositionScore a \<ge> compositionScore b) sorted \<and>
           (\<forall>s. filter (\<lambda>c. compositionScore c = s) sorted
                  = filter (\<lambda>c. compositionScore c = s)
                      (scoredCopy algorithmScore requirements clips)) \<and>
           (\<forall>s. map clip_ID (filter (\<lambda>c. compositionScore c = s) sorted)
                  = map clip_ID (filter (\<lambda>c. algorithmScore c requirements
                        \<lparr>PreviousClips = [], CurrentPosition = 0,
                         RemainingTime = TargetDuration requirements\<rparr> = s) clips))"
proof -
  let ?scored = "scoredCopy algorithmScore requirements clips"
  let ?r = "foldl (\<lambda>r x. insertBack scoreLess x r) [] ?scored"
  have lt: "scoreLess a b \<longleftrightarrow> compositionScore a > compositionScore b" for a b
    by (simp add: scoreLess_def)
  have "length ?scored \<le> 12" using assms by (simp add: scoredCopy_def)
  then have run: "scoreClips nxt algorithmScore requirements clips = Some (rev ?r)"
    by (simp add: scoreClips_def sort_Slice_short)
  have m: "mset (rev ?r) = mset ?scored"
    by (simp add: mset_foldl_insertBack)
  have "sorted_wrt (\<lambda>a b. compositionScore a \<le> compositionScore b) ?r"
    by (rule sorted_foldl_insertBack [OF lt]) simp
  then have s: "sorted_wrt (\<lambda>a b. compositionScore a \<ge> compositionScore b) (rev ?r)"
    by (simp add: sorted_wrt_rev)
  have f: "filter (\<lambda>c. compositionScore c = s) (rev ?r)
             = filter (\<lambda>c. compositionScore c = s) ?scored" for s
    using filter_foldl_insertBack [OF lt, where s = s and r = "[]" and todo = ?scored] by simp
  have g: "map clip_ID (filter (\<lambda>c. compositionScore c = s) (rev ?r))
             = map clip_ID (filter (\<lambda>c. algorithmScore c requirements
                        \<lparr>PreviousClips = [], CurrentPosition = 0,
                         RemainingTime = TargetDuration requirements\<rparr> = s) clips)" for s
    unfolding f by (rule scoredCopy_catalog)
  show ?thesis using run m s f g by blast
qed

theorem scoreClips_stable_short_witness:
  "\<exists>sorted. scoreClips (\<lambda>r. r) Score
        \<lparr>TargetDuration = 60, Theme = ''nature'', req_Mood = ''calm'', req_Style = ''cinematic'',
         PrimaryColors = [], SecondaryColors = [], MusicTempo = ''medium'',
         TransitionStyle = ''smooth'', MinClipDuration = 5, MaxClipDuration = 15,
         ContentBalance = [], AvoidRepetition = True, PreferHighQuality = False\<rparr>
        (map (\<lambda>(i, category, mood, style).
                \<lparr>clip_ID = i, clip_Duration = 10, clip_Resolution = ''640x480'',
                 clip_FrameRate = 24, clip_Bitrate = 800, clip_Category = category,
                 clip_Mood = mood, clip_Style = style, clip_Metadata = Map.empty\<rparr>)
           [(1, ''nature'', ''tense'', ''raw''), (2, ''nature'', ''tense'', ''raw''),
            (3, ''nature'', ''calm'', ''cinematic''), (4, ''city'', ''tense'', ''raw'')]) = Some sorted \<and>
     sorted_wrt (\<lambda>a b. compositionScore a \<ge> compositionScore b) sorted \<and>
     map clip_ID (filter (\<lambda>c. compositionScore c = 1 / 2) sorted) = [1, 2]"
proof -
  let ?req = "\<lparr>TargetDuration = 60, Theme = ''nature'', req_Mood = ''calm'', req_Style = ''cinematic'',
         PrimaryColors = [], SecondaryColors = [], MusicTempo = ''medium'',
         TransitionStyle = ''smooth'', MinClipDuration = 5, MaxClipDuration = 15,
         ContentBalance = [], AvoidRepetition = True, PreferHighQuality = False\<rparr>"
  let ?clips = "(map (\<lambda>(i, category, mood, style).
                \<lparr>clip_ID = i, clip_Duration = 10, clip_Resolution = ''640x480'',
                 clip_FrameRate = 24, clip_Bitrate = 800, clip_Category = category,
                 clip_Mood = mood, clip_Style = style, clip_Metadata = Map.empty\<rparr>)
           [(1, ''nature'', ''tense'', ''raw''), (2, ''nature'', ''tense'', ''raw''),
            (3, ''nature'', ''calm'', ''cinematic''), (4, ''city'', ''tense'', ''raw'')])"
  let ?ctx = "\<lparr>PreviousClips = [], CurrentPosition = 0, RemainingTime = TargetDuration ?req\<rparr>"
  have "length ?clips \<le> 12" by simp
  from scoreClips_stable_short [OF this, of "\<lambda>r. r" Score ?req]
  obtain sorted where p:
    "scoreClips (\<lambda>r. r) Score ?req ?clips = Some sorted \<and>
     mset sorted = mset (scoredCopy Score ?req ?clips) \<and>
     sorted_wrt (\<lambda>a b. compositionScore a \<ge> compositionScore b) sorted \<and>
     (\<forall>s. filter (\<lambda>c. compositionScore c = s) sorted
            = filter (\<lambda>c. compositionScore c = s) (scoredCopy Score ?req ?clips)) \<and>
     (\<forall>s. map clip_ID (filter (\<lambda>c. compositionScore c = s) sorted)
            = map clip_ID (filter (\<lambda>c. Score c ?req ?ctx = s) ?clips))"
    by (rule exE)
  from p have run: "scoreClips (\<lambda>r. r) Score ?req ?clips = Some sorted"
    by (rule conjunct1)
  from p have s: "sorted_wrt (\<lambda>a b. compositionScore a \<ge> compositionScore b) sorted"
    by (rule conjunct2 [THEN conjunct2, THEN conjunct1])
  from p have g: "\<forall>s. map clip_ID (filter (\<lambda>c. compositionScore c = s) sorted)
            = map clip_ID (filter (\<lambda>c. Score c ?req ?ctx = s) ?clips)"
    by (rule conjunct2 [THEN conjunct2, THEN conjunct2, THEN conjunct2])
  have e: "map clip_ID (filter (\<lambda>c. Score c ?req ?ctx = 1 / 2) ?clips) = [1, 2]"
    by (simp add: Score_def calculateDurationFitness_def calculateThemeFitness_def
        calculateQualityFitness_def)
  have "map clip_ID (filter (\<lambda>c. compositionScore c = 1 / 2) sorted)
          = map clip_ID (filter (\<lambda>c. Score c ?req ?ctx = 1 / 2) ?clips)"
    by (rule g [THEN spec])
  then have fin: "map clip_ID (filter (\<lambda>c. compositionScore c = 1 / 2) sorted) = [1, 2]"
    using e by (rule trans)
  show ?thesis
    by (rule exI [of _ sorted]) (intro conjI run s fin)
qed

text \<open>
  C3, as stated, fails for longer lists. A catalog of 13 clips of duration 10, scored by
  the smart selection algorithm against the theme nature, the mood calm and the style
  cinematic: the clips 1 and 2 match the theme only (score 0.5), the clips 3 to 6 match
  all three (0.7), clip 7 the theme and the mood (0.62), the clips 8 to 13 none (0.3).
  \<open>sort.Slice\<close> partitions around clip 7; the exchanges move clip 1 behind clip 2 and the
  clips 3 and 4 behind the clips 5 and 6. (On this input \<open>breakPatterns_func\<close> is not
  reached, so any function can stand for the generator.)
\<close>

theorem scoreClips_unstable_counterexample:
  "map_option (map (\<lambda>c. (clip_ID c, compositionScore c)))
     (scoreClips (\<lambda>r. r) Score
        \<lparr>TargetDuration = 60, Theme = ''nature'', req_Mood = ''calm'', req_Style = ''cinematic'',
         PrimaryColors = [], SecondaryColors = [], MusicTempo = ''medium'',
         TransitionStyle = ''smooth'', MinClipDuration = 5, MaxClipDuration = 15,
         ContentBalance = [], AvoidRepetition = True, PreferHighQuality = False\<rparr>
        (map (\<lambda>(i, category, mood, style).
                \<lparr>clip_ID = i, clip_Duration = 10, clip_Resolution = ''640x480'',
                 clip_FrameRate = 24, clip_Bitrate = 800, clip_Category = category,
                 clip_Mood = mood, clip_Style = style, clip_Metadata = Map.empty\<rparr>)
           [(1, ''nature'', ''tense'', ''raw''), (2, ''nature'', ''tense'', ''raw''),
            (3, ''nature'', ''calm'', ''cinematic''), (4, ''nature'', ''calm'', ''cinematic''),
            (5, ''nature'', ''calm'', ''cinematic''), (6, ''nature'', ''calm'', ''cinematic''),
            (7, ''nature'', ''calm'', ''raw''),
            (8, ''city'', ''tense'', ''raw''), (9, ''city'', ''tense'', ''raw''),
            (10, ''city'', ''tense'', ''raw''), (11, ''city'', ''tense'', ''raw''),
            (12, ''city'', ''tense'', ''raw''), (13, ''city'', ''tense'', ''raw'')]))
   = Some [(5, 7 / 10), (6, 7 / 10), (3, 7 / 10), (4, 7 / 10), (7, 31 / 50), (2, 1 / 2),
           (1, 1 / 2), (8, 3 / 10), (9, 3 / 10), (10, 3 / 10), (11, 3 / 10), (12, 3 / 10),
           (13, 3 / 10)]"
  by code_simp

end

